theory Spec2Isabelle
  imports Complex_Main "HOL-Library.Char_ord" "HOL-Library.List_Lexorder"
begin

section \<open>Timestamps\<close>

text \<open>
  The program works on Go \<^verbatim>\<open>time.Time\<close> values. Such a value is an instant together with a
  location. The instant is kept here as the number of nanoseconds since
  0001-01-01T00:00:00 UTC, which is Go's zero \<^verbatim>\<open>Time\<close>; the location is kept as the function
  that gives the offset from UTC, in seconds, in effect at an instant (given in seconds since
  the same origin), so that fixed zones and zones with daylight saving are both covered.
  \<^verbatim>\<open>Before\<close>, \<^verbatim>\<open>After\<close>, \<^verbatim>\<open>Equal\<close> and \<^verbatim>\<open>IsZero\<close> look at the instant only; \<^verbatim>\<open>Add\<close> keeps the
  location; \<^verbatim>\<open>Weekday\<close> is the day of the week of the civil date in the location, and
  0001-01-01 is a Monday.

  Instants are unbounded integers. Go saturates \<^verbatim>\<open>Add\<close> at the ends of its 64-bit range of
  seconds, hundreds of billions of years away from every date that the upstream JSON can
  carry (years 0 to 9999), so no saturation is modelled. A \<^verbatim>\<open>time.Duration\<close> is a number of
  nanoseconds.
\<close>

record Time =
  instant :: int
  zone :: "int \<Rightarrow> int"

datatype Weekday = Sunday | Monday | Tuesday | Wednesday | Thursday | Friday | Saturday

definition Second :: int where
  "Second = 1000000000"

definition Hour :: int where
  "Hour = 3600 * Second"

definition UTC :: "int \<Rightarrow> int" where
  "UTC = (\<lambda>_. 0)"

definition zeroTime :: Time where
  "zeroTime = \<lparr>instant = 0, zone = UTC\<rparr>"

definition Time_Before :: "Time \<Rightarrow> Time \<Rightarrow> bool" where
  "Time_Before t u = (instant t < instant u)"

definition Time_After :: "Time \<Rightarrow> Time \<Rightarrow> bool" where
  "Time_After t u = (instant t > instant u)"

definition Time_Equal :: "Time \<Rightarrow> Time \<Rightarrow> bool" where
  "Time_Equal t u = (instant t = instant u)"

definition Time_IsZero :: "Time \<Rightarrow> bool" where
  "Time_IsZero t = (instant t = 0)"

definition Time_Add :: "Time \<Rightarrow> int \<Rightarrow> Time" where
  "Time_Add t d = t\<lparr>instant := instant t + d\<rparr>"

definition weekdayOf :: "int \<Rightarrow> Weekday" where
  "weekdayOf n =
     (if n = 0 then Sunday else if n = 1 then Monday else if n = 2 then Tuesday
      else if n = 3 then Wednesday else if n = 4 then Thursday else if n = 5 then Friday
      else Saturday)"

definition Time_Weekday :: "Time \<Rightarrow> Weekday" where
  "Time_Weekday t =
     (let sec = instant t div Second; abs = sec + zone t sec
      in weekdayOf ((abs div 86400 + 1) mod 7))"

section \<open>Working days: \<^verbatim>\<open>calculateWorkingDays\<close>\<close>

record DayOff =
  Start :: Time
  End :: Time

text \<open>The inner loop over \<^verbatim>\<open>daysOff\<close>, which leaves at the first interval that holds the day.\<close>

fun isDayOff :: "Time \<Rightarrow> DayOff list \<Rightarrow> bool" where
  "isDayOff current [] = False"
| "isDayOff current (off # rest) =
     (if (Time_Equal current (Start off) \<or> Time_After current (Start off)) \<and>
         (Time_Equal current (End off) \<or> Time_Before current (End off))
      then True
      else isDayOff current rest)"

text \<open>
  The outer loop, \<^verbatim>\<open>for current.Before(end) || current.Equal(end)\<close>, with the running count
  as an argument. The count is a Go \<^verbatim>\<open>int\<close>; it grows by one per visited day at most, so it
  stays far below \<open>2^63\<close>.
\<close>

function workingDaysLoop :: "Time \<Rightarrow> DayOff list \<Rightarrow> Time \<Rightarrow> int \<Rightarrow> int" where
  "workingDaysLoop endT daysOff current workingDays =
     (if Time_Before current endT \<or> Time_Equal current endT
      then workingDaysLoop endT daysOff (Time_Add current (24 * Hour))
             (if Time_Weekday current \<noteq> Saturday \<and> Time_Weekday current \<noteq> Sunday
              then (if \<not> isDayOff current daysOff then workingDays + 1 else workingDays)
              else workingDays)
      else workingDays)"
  by pat_completeness auto
termination
  by (relation "measure (\<lambda>(endT, daysOff, current, workingDays).
        nat (instant endT - instant current + 1))")
     (auto simp: Time_Before_def Time_Equal_def Time_Add_def Hour_def Second_def)

declare workingDaysLoop.simps [simp del]

definition calculateWorkingDays :: "Time \<Rightarrow> Time \<Rightarrow> DayOff list \<Rightarrow> int" where
  "calculateWorkingDays start endT daysOff = workingDaysLoop endT daysOff start 0"

subsection \<open>The specification's description of the count\<close>

text \<open>
  The specification counts calendar days. The calendar day of a timestamp is its civil
  date in its own location, here the number of whole days since 0001-01-01 (day 0, a
  Monday). The calendar days of the inclusive range from \<open>start\<close> to \<open>endT\<close> are the dates
  from the date of \<open>start\<close> to the date of \<open>endT\<close>; a calendar day lies in an exclusion
  interval when it is a date from the date of the interval's start to the date of its end.
\<close>

definition calendarDay :: "Time \<Rightarrow> int" where
  "calendarDay t = (let sec = instant t div Second in (sec + zone t sec) div 86400)"

definition calendarWeekend :: "int \<Rightarrow> bool" where
  "calendarWeekend d =
     (weekdayOf ((d + 1) mod 7) = Saturday \<or> weekdayOf ((d + 1) mod 7) = Sunday)"

definition calendarExcluded :: "int \<Rightarrow> DayOff list \<Rightarrow> bool" where
  "calendarExcluded d offs =
     (\<exists>off \<in> set offs. calendarDay (Start off) \<le> d \<and> d \<le> calendarDay (End off))"

definition calendarWorkingDays :: "Time \<Rightarrow> Time \<Rightarrow> DayOff list \<Rightarrow> int" where
  "calendarWorkingDays start endT offs =
     int (length (filter (\<lambda>d. \<not> calendarWeekend d \<and> \<not> calendarExcluded d offs)
                   [calendarDay start .. calendarDay endT]))"

text \<open>A timestamp at 00:00:00 UTC, the form in which the iteration dates usually arrive.\<close>

definition atMidnightUTC :: "Time \<Rightarrow> bool" where
  "atMidnightUTC t = (zone t = UTC \<and> instant t mod (24 * Hour) = 0)"

subsection \<open>The instants the loop visits\<close>

text \<open>
  The loop does not walk over dates. It visits the instants \<open>start\<close>, \<open>start\<close> + 24h,
  \<open>start\<close> + 48h, and so on, as long as the instant is not after \<open>endT\<close>; each of them
  keeps the time of day of \<open>start\<close> (up to changes of the zone offset). The weekday is
  read from the visited instant, and an exclusion interval is compared with it as an
  instant, both ends included.
\<close>

definition visitedInstants :: "Time \<Rightarrow> Time \<Rightarrow> Time set" where
  "visitedInstants start endT =
     {d. \<exists>k::nat. d = Time_Add start (int k * (24 * Hour)) \<and> instant d \<le> instant endT}"

definition isWeekend :: "Time \<Rightarrow> bool" where
  "isWeekend d = (Time_Weekday d = Saturday \<or> Time_Weekday d = Sunday)"

definition inExclusion :: "Time \<Rightarrow> DayOff list \<Rightarrow> bool" where
  "inExclusion d offs =
     (\<exists>off \<in> set offs. instant (Start off) \<le> instant d \<and> instant d \<le> instant (End off))"

text \<open>The same instants as a list, used to follow the loop.\<close>

definition daySteps :: "Time \<Rightarrow> Time \<Rightarrow> nat" where
  "daySteps start endT =
     (if instant start \<le> instant endT
      then nat ((instant endT - instant start) div (24 * Hour)) + 1
      else 0)"

definition dayList :: "Time \<Rightarrow> Time \<Rightarrow> Time list" where
  "dayList start endT =
     map (\<lambda>k. Time_Add start (int k * (24 * Hour))) [0 ..< daySteps start endT]"

section \<open>Sprint window: the \<^verbatim>\<open>/sprints\<close> handler\<close>

text \<open>
  The handler receives the team's iterations from the Azure DevOps client and reads the
  clock once. Of an iteration record it reads the name, the path and the two dates of the
  attributes, each of them a pointer that may be nil. \<^verbatim>\<open>uuid.Parse\<close> belongs to a library
  and is a parameter of the model; the sprint's identifier plays no part in the selection.
\<close>

datatype UUID = UUID "nat list"

definition uuid_Nil :: UUID where
  "uuid_Nil = UUID (replicate 16 0)"

record TeamIterationAttributes =
  StartDate :: "Time option"
  FinishDate :: "Time option"

record TeamSettingsIteration =
  Attributes :: "TeamIterationAttributes option"
  Name :: "string option"
  Path :: "string option"

record Sprint =
  ID :: UUID
  Name :: string
  StartDate :: Time
  EndDate :: Time
  IsCurrent :: bool

datatype error =
  SliceBoundsOutOfRange int int
| UnrecognizedDateFormat string
text \<open>
  Slicing \<^verbatim>\<open>s[lo:hi]\<close> panics in Go unless \<open>0 \<le> lo \<le> hi \<le> cap s\<close>. The handler
  never asks for an upper bound above the length, so the bound is checked against the
  length here; a panic is the error value.
\<close>

definition slice :: "'a list \<Rightarrow> int \<Rightarrow> int \<Rightarrow> error + 'a list" where
  "slice xs lo hi =
     (if 0 \<le> lo \<and> lo \<le> hi \<and> hi \<le> int (length xs)
      then Inr (take (nat (hi - lo)) (drop (nat lo) xs))
      else Inl (SliceBoundsOutOfRange lo hi))"
text \<open>
  The body of the loop from the declaration of \<^verbatim>\<open>sprint\<close> to the end of the check for the
  current sprint (lines 225 to 251), for an iteration whose name is \<open>name\<close>.
\<close>

definition buildSprint :: "(string \<Rightarrow> UUID option) \<Rightarrow> Time \<Rightarrow> TeamSettingsIteration \<Rightarrow> string \<Rightarrow> Sprint" where
  "buildSprint uuid_Parse now iteration name =
     (let sprint = \<lparr>ID = uuid_Nil, Name = name, StartDate = zeroTime, EndDate = zeroTime,
                     IsCurrent = False\<rparr>;
          sprint = (case Path iteration of
                      None \<Rightarrow> sprint
                    | Some path \<Rightarrow>
                        (case uuid_Parse path of
                           Some iterationID \<Rightarrow> sprint\<lparr>ID := iterationID\<rparr>
                         | None \<Rightarrow> sprint))
      in case Attributes iteration of
           None \<Rightarrow> sprint
         | Some attributes \<Rightarrow>
             (let sprint = (case TeamIterationAttributes.StartDate attributes of
                              Some d \<Rightarrow> sprint\<lparr>StartDate := d\<rparr>
                            | None \<Rightarrow> sprint);
                  sprint = (case FinishDate attributes of
                              Some d \<Rightarrow> sprint\<lparr>EndDate := d\<rparr>
                            | None \<Rightarrow> sprint)
              in if \<not> Time_IsZero (StartDate sprint) \<and> \<not> Time_IsZero (EndDate sprint)
                 then (if Time_After now (StartDate sprint) \<and> Time_Before now (EndDate sprint)
                       then sprint\<lparr>IsCurrent := True\<rparr>
                       else sprint)
                 else sprint))"
text \<open>
  The loop over the iterations. \<open>i\<close> is the index of the \<^verbatim>\<open>range\<close> clause, which counts
  every iteration, also those that are skipped for having no name; the source sets
  \<^verbatim>\<open>currentSprintIndex = i\<close> in the branch that sets \<^verbatim>\<open>IsCurrent\<close>.
\<close>

fun scanIterations ::
  "(string \<Rightarrow> UUID option) \<Rightarrow> Time \<Rightarrow> TeamSettingsIteration list \<Rightarrow> int \<Rightarrow>
   Sprint list \<times> int \<Rightarrow> Sprint list \<times> int" where
  "scanIterations uuid_Parse now [] i (allSprints, currentSprintIndex) =
     (allSprints, currentSprintIndex)"
| "scanIterations uuid_Parse now (iteration # rest) i (allSprints, currentSprintIndex) =
     (case TeamSettingsIteration.Name iteration of
        None \<Rightarrow> scanIterations uuid_Parse now rest (i + 1) (allSprints, currentSprintIndex)
      | Some name \<Rightarrow>
          (let sprint = buildSprint uuid_Parse now iteration name
           in scanIterations uuid_Parse now rest (i + 1)
                (allSprints @ [sprint], if IsCurrent sprint then i else currentSprintIndex)))"
definition sprintsHandler ::
  "(string \<Rightarrow> UUID option) \<Rightarrow> Time \<Rightarrow> TeamSettingsIteration list option \<Rightarrow> error + Sprint list" where
  "sprintsHandler uuid_Parse now iterations =
     (case iterations of
        None \<Rightarrow> Inr []
      | Some its \<Rightarrow>
          if length its > 0
          then (case scanIterations uuid_Parse now its 0 ([], - 1) of
                  (allSprints, currentSprintIndex) \<Rightarrow>
                    if currentSprintIndex \<ge> 0
                    then (let startIndex = currentSprintIndex - 3;
                              startIndex = (if startIndex < 0 then 0 else startIndex);
                              endIndex = currentSprintIndex + 4;
                              endIndex = (if endIndex > int (length allSprints)
                                          then int (length allSprints) else endIndex)
                          in slice allSprints startIndex endIndex)
                    else if length allSprints > 7
                    then slice allSprints (int (length allSprints) - 7) (int (length allSprints))
                    else Inr allSprints)
          else Inr [])"
subsection \<open>The specification's words for the selection\<close>

text \<open>
  A date is present when the pointer is not nil and the time is not the zero time. The
  specification speaks of \<open>now\<close> in the half-open range from start to end; the code tests
  \<^verbatim>\<open>now.After(start) && now.Before(end)\<close>, the open range.
\<close>

definition startOf :: "TeamSettingsIteration \<Rightarrow> Time option" where
  "startOf iteration =
     (case Attributes iteration of
        None \<Rightarrow> None
      | Some attributes \<Rightarrow>
          (case TeamIterationAttributes.StartDate attributes of
             None \<Rightarrow> None
           | Some d \<Rightarrow> if Time_IsZero d then None else Some d))"

definition endOf :: "TeamSettingsIteration \<Rightarrow> Time option" where
  "endOf iteration =
     (case Attributes iteration of
        None \<Rightarrow> None
      | Some attributes \<Rightarrow>
          (case FinishDate attributes of
             None \<Rightarrow> None
           | Some d \<Rightarrow> if Time_IsZero d then None else Some d))"

definition nowInHalfOpenRange :: "Time \<Rightarrow> TeamSettingsIteration \<Rightarrow> bool" where
  "nowInHalfOpenRange now iteration =
     (case (startOf iteration, endOf iteration) of
        (Some s, Some e) \<Rightarrow> instant s \<le> instant now \<and> instant now < instant e
      | _ \<Rightarrow> False)"

definition nowInOpenRange :: "Time \<Rightarrow> TeamSettingsIteration \<Rightarrow> bool" where
  "nowInOpenRange now iteration =
     (case (startOf iteration, endOf iteration) of
        (Some s, Some e) \<Rightarrow> instant s < instant now \<and> instant now < instant e
      | _ \<Rightarrow> False)"

definition named :: "TeamSettingsIteration list \<Rightarrow> TeamSettingsIteration list" where
  "named its = filter (\<lambda>iteration. TeamSettingsIteration.Name iteration \<noteq> None) its"
definition marked :: "Time \<Rightarrow> TeamSettingsIteration \<Rightarrow> bool" where
  "marked now iteration =
     (TeamSettingsIteration.Name iteration \<noteq> None \<and> nowInOpenRange now iteration)"
definition lastMarkedAt :: "Time \<Rightarrow> TeamSettingsIteration list \<Rightarrow> nat \<Rightarrow> bool" where
  "lastMarkedAt now its k =
     (k < length its \<and> marked now (its ! k) \<and>
      (\<forall>j. k < j \<and> j < length its \<longrightarrow> \<not> marked now (its ! j)))"
subsection \<open>Example inputs\<close>

text \<open>
  \<open>day n\<close> is midnight UTC, \<open>n\<close> days after 0001-01-01; day 739039 is Monday 2024-06-03.
  Iteration paths such as \<^verbatim>\<open>Project\Sprint 1\<close> are no UUIDs, so \<open>noUUID\<close> stands for
  \<^verbatim>\<open>uuid.Parse\<close> in the examples.
\<close>

definition noUUID :: "string \<Rightarrow> UUID option" where
  "noUUID path = None"

definition day :: "int \<Rightarrow> Time" where
  "day n = \<lparr>instant = n * (24 * Hour), zone = UTC\<rparr>"

text \<open>\<open>dayAt n h\<close> is \<open>h\<close> o'clock UTC on day \<open>n\<close>.\<close>

definition dayAt :: "int \<Rightarrow> int \<Rightarrow> Time" where
  "dayAt n h = \<lparr>instant = n * (24 * Hour) + h * Hour, zone = UTC\<rparr>"

definition iter :: "string option \<Rightarrow> int \<Rightarrow> int \<Rightarrow> TeamSettingsIteration" where
  "iter name s e =
     \<lparr>Attributes = Some \<lparr>TeamIterationAttributes.StartDate = Some (day s), FinishDate = Some (day e)\<rparr>,
      Name = name, Path = None\<rparr>"
definition namelessFirst :: "TeamSettingsIteration list" where
  "namelessFirst =
     [iter None 738990 739000, iter None 739000 739010, iter None 739010 739020,
      iter None 739020 739030,
      iter (Some ''A'') 739030 739050, iter (Some ''B'') 739050 739060,
      iter (Some ''C'') 739060 739070, iter (Some ''D'') 739070 739080,
      iter (Some ''E'') 739080 739090]"
section \<open>Developer capacity: the \<^verbatim>\<open>/developers\<close> handler\<close>

text \<open>
  The part of the handler after the upstream queries: the sprint range is read from the
  target iteration, the tasks are counted per assignee, every developer gets the default
  capacity, and the capacities are computed and summed. The two loops over \<^verbatim>\<open>devMap\<close>
  visit the keys in an order that Go leaves open; the two orders are parameters. The
  capacities are \<^verbatim>\<open>float64\<close> in the source and real numbers here: every value that occurs is
  a whole number of hours below \<open>2^53\<close>, on which \<^verbatim>\<open>float64\<close> arithmetic is exact.
\<close>

record Activity =
  CapacityPerDay :: real
  Name :: string

record TeamMemberCapacity =
  Activities :: "Activity list"
  DaysOff :: "DayOff list"

record Developer =
  Name :: string
  Email :: string
  Tasks :: int
  CapacityPerDay :: real
  TotalCapacity :: real
  DaysOff :: int

record DevelopersResponse =
  Developers :: "Developer list"
  SprintStart :: Time
  SprintEnd :: Time
  TotalCapacity :: real
  TotalDaysOff :: int
  WorkingDays :: int

definition sprintRange :: "TeamSettingsIteration \<Rightarrow> Time \<times> Time" where
  "sprintRange targetIteration =
     (case Attributes targetIteration of
        None \<Rightarrow> (zeroTime, zeroTime)
      | Some attributes \<Rightarrow>
          ((case TeamIterationAttributes.StartDate attributes of
              Some d \<Rightarrow> d | None \<Rightarrow> zeroTime),
           (case FinishDate attributes of
              Some d \<Rightarrow> d | None \<Rightarrow> zeroTime)))"

fun countTasks :: "string list \<Rightarrow> (string \<rightharpoonup> Developer) \<Rightarrow> (string \<rightharpoonup> Developer)" where
  "countTasks [] devMap = devMap"
| "countTasks (assignedTo # rest) devMap =
     (if assignedTo \<noteq> ''''
      then (case devMap assignedTo of
              Some dev \<Rightarrow> countTasks rest (devMap(assignedTo \<mapsto> dev\<lparr>Tasks := Tasks dev + 1\<rparr>))
            | None \<Rightarrow>
                countTasks rest
                  (devMap(assignedTo \<mapsto>
                     \<lparr>Developer.Name = assignedTo, Email = '''', Tasks = 1, CapacityPerDay = 0,
                      TotalCapacity = 0, DaysOff = 0\<rparr>)))
      else countTasks rest devMap)"

definition rangeOver :: "('k \<rightharpoonup> 'v) \<Rightarrow> 'k list \<Rightarrow> 'v list" where
  "rangeOver m ks = List.map_filter m ks"

definition defaultCapacity :: TeamMemberCapacity where
  "defaultCapacity =
     \<lparr>Activities = [\<lparr>Activity.CapacityPerDay = 8, Name = ''Desenvolvimento''\<rparr>],
      DaysOff = []\<rparr>"

fun setDefaultCapacities ::
  "Developer list \<Rightarrow> (string \<rightharpoonup> TeamMemberCapacity) \<Rightarrow> (string \<rightharpoonup> TeamMemberCapacity)" where
  "setDefaultCapacities [] devCapacities = devCapacities"
| "setDefaultCapacities (dev # devs) devCapacities =
     setDefaultCapacities devs (devCapacities(Developer.Name dev \<mapsto> defaultCapacity))"

fun sumCapacityPerDay :: "Activity list \<Rightarrow> real \<Rightarrow> real" where
  "sumCapacityPerDay [] capacityPerDay = capacityPerDay"
| "sumCapacityPerDay (activity # rest) capacityPerDay =
     sumCapacityPerDay rest (capacityPerDay + Activity.CapacityPerDay activity)"

fun capacityLoop ::
  "Time \<Rightarrow> Time \<Rightarrow> (string \<rightharpoonup> TeamMemberCapacity) \<Rightarrow> Developer list \<Rightarrow>
   Developer list \<times> int \<times> DevelopersResponse \<Rightarrow> Developer list \<times> int \<times> DevelopersResponse" where
  "capacityLoop sprintStart sprintEnd devCapacities [] state = state"
| "capacityLoop sprintStart sprintEnd devCapacities (dev # devs) (developers, totalDaysOff, response) =
     (let developer = \<lparr>Developer.Name = Developer.Name dev, Email = '''', Tasks = Tasks dev,
                        CapacityPerDay = 0, TotalCapacity = 0, DaysOff = 0\<rparr>
      in case devCapacities (Developer.Name dev) of
           Some capacity \<Rightarrow>
             (let developer = developer\<lparr>Developer.CapacityPerDay :=
                    sumCapacityPerDay (Activities capacity) (Developer.CapacityPerDay developer)\<rparr>;
                  workingDays = calculateWorkingDays sprintStart sprintEnd
                                  (TeamMemberCapacity.DaysOff capacity);
                  developer = developer\<lparr>Developer.DaysOff := int (length (TeamMemberCapacity.DaysOff capacity))\<rparr>;
                  totalDaysOff = totalDaysOff + Developer.DaysOff developer;
                  developer = developer\<lparr>Developer.TotalCapacity :=
                    real_of_int workingDays * Developer.CapacityPerDay developer\<rparr>;
                  response = response\<lparr>DevelopersResponse.TotalCapacity :=
                    DevelopersResponse.TotalCapacity response + Developer.TotalCapacity developer\<rparr>
              in capacityLoop sprintStart sprintEnd devCapacities devs
                   (developers @ [developer], totalDaysOff, response))
         | None \<Rightarrow>
             capacityLoop sprintStart sprintEnd devCapacities devs
               (developers @ [developer], totalDaysOff, response))"

definition developersCapacity ::
  "Time \<Rightarrow> Time \<Rightarrow> (string \<rightharpoonup> Developer) \<Rightarrow> string list \<Rightarrow> string list \<Rightarrow> DevelopersResponse" where
  "developersCapacity sprintStart sprintEnd devMap order1 order2 =
     (let devCapacities = setDefaultCapacities (rangeOver devMap order1) Map.empty;
          response = \<lparr>Developers = [], SprintStart = sprintStart, SprintEnd = sprintEnd,
                       TotalCapacity = 0, TotalDaysOff = 0, WorkingDays = 0\<rparr>
      in case capacityLoop sprintStart sprintEnd devCapacities (rangeOver devMap order2)
                ([], 0, response) of
           (developers, totalDaysOff, response) \<Rightarrow>
             response\<lparr>Developers := sort_key Developer.Name developers,
                       TotalDaysOff := totalDaysOff,
                       WorkingDays := calculateWorkingDays sprintStart sprintEnd []\<rparr>)"

definition developersHandler ::
  "TeamSettingsIteration \<Rightarrow> string list \<Rightarrow> string list \<Rightarrow> string list \<Rightarrow> DevelopersResponse" where
  "developersHandler targetIteration assignees order1 order2 =
     (case sprintRange targetIteration of
        (sprintStart, sprintEnd) \<Rightarrow>
          developersCapacity sprintStart sprintEnd (countTasks assignees Map.empty) order1 order2)"
section \<open>Date strings: \<^verbatim>\<open>time.Parse\<close> and \<^verbatim>\<open>parseDate\<close>\<close>

text \<open>
  \<^verbatim>\<open>time.Parse\<close> belongs to the Go standard library, not to the repository. The model
  below follows the library's algorithm (\<^verbatim>\<open>nextStdChunk\<close>, \<^verbatim>\<open>skip\<close>, \<^verbatim>\<open>getnum\<close>,
  \<^verbatim>\<open>atoi\<close>, \<^verbatim>\<open>lookup\<close>, the loop of \<^verbatim>\<open>parse\<close>, \<^verbatim>\<open>Date\<close>) for the layout elements
  that occur in the ten layouts of \<^verbatim>\<open>parseDate\<close>: the four-digit year, month and day as
  numbers with and without a leading zero, the English month name, hour, minute and
  second, and the zones \<^verbatim>\<open>Z07:00\<close> and \<^verbatim>\<open>-07:00\<close>. \<^verbatim>\<open>nextStdChunk\<close> recognises every
  layout element of the library; the parse answers \<open>errUnmodelled\<close> for the others.
\<close>

text \<open>
  The elements that a layout may contain, as \<^verbatim>\<open>nextStdChunk\<close> tells them apart.
\<close>

datatype Std =
  stdLongMonth | stdMonth | stdNumMonth | stdZeroMonth | stdLongWeekDay | stdWeekDay
| stdDay | stdUnderDay | stdZeroDay | stdUnderYearDay | stdZeroYearDay
| stdHour | stdHour12 | stdZeroHour12 | stdMinute | stdZeroMinute | stdSecond | stdZeroSecond
| stdLongYear | stdYear | stdPM | stdpm | stdTZ
| stdISO8601TZ | stdISO8601SecondsTZ | stdISO8601ShortTZ | stdISO8601ColonTZ
| stdISO8601ColonSecondsTZ
| stdNumTZ | stdNumSecondsTz | stdNumShortTZ | stdNumColonTZ | stdNumColonSecondsTZ
| stdFracSecond0 nat char | stdFracSecond9 nat char

text \<open>
  \<^verbatim>\<open>parseDate\<close> asks of a parse error only whether there is one. \<open>errUnmodelled\<close> is
  the answer of the model for a layout element that the layouts of \<^verbatim>\<open>parseDate\<close> do not
  contain.
\<close>

datatype ParseError = errBad | errRange string | errExtraText | errUnmodelled

definition digit :: "char \<Rightarrow> bool" where
  "digit c = (CHR ''0'' \<le> c \<and> c \<le> CHR ''9'')"

definition digitVal :: "char \<Rightarrow> int" where
  "digitVal c = of_char c - of_char (CHR ''0'')"

definition isDigit :: "string \<Rightarrow> nat \<Rightarrow> bool" where
  "isDigit s i = (if length s \<le> i then False else digit (s ! i))"

definition startsWithLowerCase :: "string \<Rightarrow> bool" where
  "startsWithLowerCase str =
     (case str of [] \<Rightarrow> False | c # _ \<Rightarrow> CHR ''a'' \<le> c \<and> c \<le> CHR ''z'')"

definition hasPrefix :: "string \<Rightarrow> string \<Rightarrow> bool" where
  "hasPrefix layout p = (length layout \<ge> length p \<and> take (length p) layout = p)"

definition std0x :: "char \<Rightarrow> Std" where
  "std0x c =
     (if c = CHR ''1'' then stdZeroMonth else if c = CHR ''2'' then stdZeroDay
      else if c = CHR ''3'' then stdZeroHour12 else if c = CHR ''4'' then stdZeroMinute
      else if c = CHR ''5'' then stdZeroSecond else stdYear)"

text \<open>
  \<^verbatim>\<open>nextStdChunk\<close> walks along the layout and, at each position, looks at the character in
  a \<^verbatim>\<open>switch\<close>. The cases of the switch that need more than one test are definitions of
  their own. At a position where an element starts, the result is the literal text that
  still belongs to the prefix (only \<^verbatim>\<open>_2006\<close> has one), the element, and the number of
  layout characters taken.
\<close>

definition caseJ :: "string \<Rightarrow> (string \<times> Std \<times> nat) option" where
  "caseJ layout =
     (if hasPrefix layout ''Jan'' then
        (if hasPrefix layout ''January'' then Some ([], stdLongMonth, 7)
         else if \<not> startsWithLowerCase (drop 3 layout) then Some ([], stdMonth, 3)
         else None)
      else None)"

definition caseM :: "string \<Rightarrow> (string \<times> Std \<times> nat) option" where
  "caseM layout =
     (if length layout \<ge> 3 then
        (if hasPrefix layout ''Mon'' \<and> hasPrefix layout ''Monday''
         then Some ([], stdLongWeekDay, 6)
         else if hasPrefix layout ''Mon'' \<and> \<not> startsWithLowerCase (drop 3 layout)
         then Some ([], stdWeekDay, 3)
         else if hasPrefix layout ''MST'' then Some ([], stdTZ, 3)
         else None)
      else None)"

definition case0 :: "string \<Rightarrow> (string \<times> Std \<times> nat) option" where
  "case0 layout =
     (if length layout \<ge> 2 \<and> CHR ''1'' \<le> layout ! 1 \<and> layout ! 1 \<le> CHR ''6''
      then Some ([], std0x (layout ! 1), 2)
      else if length layout \<ge> 3 \<and> layout ! 1 = CHR ''0'' \<and> layout ! 2 = CHR ''2''
      then Some ([], stdZeroYearDay, 3)
      else None)"

definition case1 :: "string \<Rightarrow> (string \<times> Std \<times> nat) option" where
  "case1 layout =
     (if length layout \<ge> 2 \<and> layout ! 1 = CHR ''5''
      then Some ([], stdHour, 2)
      else Some ([], stdNumMonth, 1))"

definition case2 :: "string \<Rightarrow> (string \<times> Std \<times> nat) option" where
  "case2 layout =
     (if hasPrefix layout ''2006'' then Some ([], stdLongYear, 4)
      else Some ([], stdDay, 1))"

definition caseUnderscore :: "string \<Rightarrow> (string \<times> Std \<times> nat) option" where
  "caseUnderscore layout =
     (if length layout \<ge> 2 \<and> layout ! 1 = CHR ''2'' then
        (if hasPrefix (drop 1 layout) ''2006''
         then Some (''_'', stdLongYear, 5)
         else Some ([], stdUnderDay, 2))
      else if length layout \<ge> 3 \<and> layout ! 1 = CHR ''_'' \<and> layout ! 2 = CHR ''2''
      then Some ([], stdUnderYearDay, 3)
      else None)"

definition caseMinus :: "string \<Rightarrow> (string \<times> Std \<times> nat) option" where
  "caseMinus layout =
     (if hasPrefix layout ''-070000'' then Some ([], stdNumSecondsTz, 7)
      else if hasPrefix layout ''-07:00:00'' then Some ([], stdNumColonSecondsTZ, 9)
      else if hasPrefix layout ''-0700'' then Some ([], stdNumTZ, 5)
      else if hasPrefix layout ''-07:00'' then Some ([], stdNumColonTZ, 6)
      else if hasPrefix layout ''-07'' then Some ([], stdNumShortTZ, 3)
      else None)"

definition caseZ :: "string \<Rightarrow> (string \<times> Std \<times> nat) option" where
  "caseZ layout =
     (if hasPrefix layout ''Z070000'' then Some ([], stdISO8601SecondsTZ, 7)
      else if hasPrefix layout ''Z07:00:00'' then Some ([], stdISO8601ColonSecondsTZ, 9)
      else if hasPrefix layout ''Z0700'' then Some ([], stdISO8601TZ, 5)
      else if hasPrefix layout ''Z07:00'' then Some ([], stdISO8601ColonTZ, 6)
      else if hasPrefix layout ''Z07'' then Some ([], stdISO8601ShortTZ, 3)
      else None)"

definition caseFraction :: "char \<Rightarrow> string \<Rightarrow> (string \<times> Std \<times> nat) option" where
  "caseFraction c layout =
     (if 1 < length layout \<and> (layout ! 1 = CHR ''0'' \<or> layout ! 1 = CHR ''9'') then
        (let ch = layout ! 1;
             n = length (takeWhile (\<lambda>x. x = ch) (drop 1 layout))
         in if \<not> isDigit layout (1 + n)
            then Some ([], (if ch = CHR ''9'' then stdFracSecond9 n c else stdFracSecond0 n c),
                       1 + n)
            else None)
      else None)"

definition stdAt :: "string \<Rightarrow> (string \<times> Std \<times> nat) option" where
  "stdAt layout =
     (case layout of
        [] \<Rightarrow> None
      | c # _ \<Rightarrow>
          if c = CHR ''J'' then caseJ layout
          else if c = CHR ''M'' then caseM layout
          else if c = CHR ''0'' then case0 layout
          else if c = CHR ''1'' then case1 layout
          else if c = CHR ''2'' then case2 layout
          else if c = CHR ''_'' then caseUnderscore layout
          else if c = CHR ''3'' then Some ([], stdHour12, 1)
          else if c = CHR ''4'' then Some ([], stdMinute, 1)
          else if c = CHR ''5'' then Some ([], stdSecond, 1)
          else if c = CHR ''P'' then
            (if length layout \<ge> 2 \<and> layout ! 1 = CHR ''M'' then Some ([], stdPM, 2) else None)
          else if c = CHR ''p'' then
            (if length layout \<ge> 2 \<and> layout ! 1 = CHR ''m'' then Some ([], stdpm, 2) else None)
          else if c = CHR ''-'' then caseMinus layout
          else if c = CHR ''Z'' then caseZ layout
          else if c = CHR ''.'' \<or> c = CHR '','' then caseFraction c layout
          else None)"

fun nextStdChunk :: "string \<Rightarrow> string \<times> Std option \<times> string" where
  "nextStdChunk [] = ([], None, [])"
| "nextStdChunk (c # layout) =
     (case stdAt (c # layout) of
        Some (literal, std, n) \<Rightarrow> (literal, Some std, drop n (c # layout))
      | None \<Rightarrow>
          (case nextStdChunk layout of
             (prefix, std, suffix) \<Rightarrow> (c # prefix, std, suffix)))"

text \<open>An element takes at least one character of the layout, so the parse loop ends.\<close>

definition takesSome :: "(string \<times> Std \<times> nat) option \<Rightarrow> bool" where
  "takesSome r = (case r of None \<Rightarrow> True | Some (literal, std, n) \<Rightarrow> 0 < n)"

lemma takesSome_simps [simp]:
  "takesSome None" "takesSome (Some (literal, std, n)) = (0 < n)"
  by (simp_all add: takesSome_def)

lemma takesSome_cases:
  "takesSome (caseJ layout)" "takesSome (caseM layout)" "takesSome (case0 layout)"
  "takesSome (case1 layout)" "takesSome (case2 layout)" "takesSome (caseUnderscore layout)"
  "takesSome (caseMinus layout)" "takesSome (caseZ layout)" "takesSome (caseFraction c layout)"
  by (simp_all add: caseJ_def caseM_def case0_def case1_def case2_def caseUnderscore_def
      caseMinus_def caseZ_def caseFraction_def Let_def)

lemma takesSome_stdAt: "takesSome (stdAt layout)"
  by (cases layout) (simp_all add: stdAt_def takesSome_cases)

lemma stdAt_pos: "stdAt layout = Some (literal, std, n) \<Longrightarrow> 0 < n"
  using takesSome_stdAt [of layout] by simp

lemma nextStdChunk_shorter:
  "nextStdChunk layout = (prefix, Some std, suffix) \<Longrightarrow> length suffix < length layout"
proof (induction layout arbitrary: prefix)
  case Nil
  then show ?case by simp
next
  case (Cons c layout)
  show ?case
  proof (cases "stdAt (c # layout)")
    case None
    with Cons.prems obtain p where "nextStdChunk layout = (p, Some std, suffix)"
      by (auto split: prod.splits)
    from Cons.IH [OF this] show ?thesis by simp
  next
    case (Some a)
    then obtain literal std' n where a: "stdAt (c # layout) = Some (literal, std', n)"
      by (cases a) auto
    with Cons.prems have "suffix = drop n (c # layout)"
      by simp
    with stdAt_pos [OF a] show ?thesis
      by simp
  qed
qed

text \<open>
  \<^verbatim>\<open>skip\<close> consumes the literal prefix from the value; a space in the prefix stands for
  any run of spaces, also an empty one at the end of the value.
\<close>

definition cutspace :: "string \<Rightarrow> string" where
  "cutspace str = dropWhile (\<lambda>c. c = CHR '' '') str"

function skip :: "string \<Rightarrow> string \<Rightarrow> string option" where
  "skip val [] = Some val"
| "skip val (p # prefix) =
     (if p = CHR '' ''
      then (if val \<noteq> [] \<and> hd val \<noteq> CHR '' '' then None
            else skip (cutspace val) (cutspace prefix))
      else (case val of
              [] \<Rightarrow> None
            | v # rest \<Rightarrow> if v \<noteq> p then None else skip rest prefix))"
  by pat_completeness auto
termination
proof (relation "measure (\<lambda>(val, prefix). length prefix)")
  show "wf (measure (\<lambda>(val, prefix). length prefix))"
    by simp
next
  fix val :: string and p :: char and prefix :: string
  have "length (cutspace prefix) \<le> length prefix"
    by (simp add: cutspace_def length_dropWhile_le)
  then show "((cutspace val, cutspace prefix), (val, p # prefix))
      \<in> measure (\<lambda>(val, prefix). length prefix)"
    by simp
next
  fix val :: string and p :: char and prefix :: string and v :: char and rest :: string
  show "((rest, prefix), (val, p # prefix)) \<in> measure (\<lambda>(val, prefix). length prefix)"
    by simp
qed

text \<open>\<^verbatim>\<open>getnum\<close> reads one or two digits, exactly two when \<open>fixed\<close>.\<close>

fun getnum :: "string \<Rightarrow> bool \<Rightarrow> (int \<times> string) option" where
  "getnum [] fixed = None"
| "getnum [c] fixed = (if digit c \<and> \<not> fixed then Some (digitVal c, []) else None)"
| "getnum (c # d # rest) fixed =
     (if \<not> digit c then None
      else if \<not> digit d then (if fixed then None else Some (digitVal c, d # rest))
      else Some (digitVal c * 10 + digitVal d, rest))"

text \<open>
  \<^verbatim>\<open>leadingInt\<close> and \<^verbatim>\<open>atoi\<close>. The overflow test of \<^verbatim>\<open>leadingInt\<close> is left out: the parse
  calls \<^verbatim>\<open>atoi\<close> on four characters for the year and on nine digits at most for the
  fraction of a second.
\<close>

fun leadingInt :: "string \<Rightarrow> int \<Rightarrow> int \<times> string" where
  "leadingInt [] x = (x, [])"
| "leadingInt (c # rest) x =
     (if digit c then leadingInt rest (x * 10 + digitVal c) else (x, c # rest))"

definition atoi :: "string \<Rightarrow> int option" where
  "atoi str =
     (let neg = (str \<noteq> [] \<and> hd str = CHR ''-'');
          str = (if str \<noteq> [] \<and> (hd str = CHR ''-'' \<or> hd str = CHR ''+'') then tl str else str)
      in case leadingInt str 0 of
           (q, rem) \<Rightarrow> if rem \<noteq> [] then None else Some (if neg then - q else q))"

text \<open>
  Month names are matched without regard to case: \<^verbatim>\<open>match\<close> sets the bit \<^verbatim>\<open>'a' - 'A'\<close>
  in both characters where they differ.
\<close>

definition lower :: "char \<Rightarrow> char" where
  "lower c = (case c of Char b0 b1 b2 b3 b4 b5 b6 b7 \<Rightarrow> Char b0 b1 b2 b3 b4 True b6 b7)"

fun match :: "string \<Rightarrow> string \<Rightarrow> bool" where
  "match (c1 # s1) (c2 # s2) =
     (if c1 \<noteq> c2
      then (if lower c1 \<noteq> lower c2 \<or> lower c1 < CHR ''a'' \<or> lower c1 > CHR ''z'' then False
            else match s1 s2)
      else match s1 s2)"
| "match s1 s2 = True"

fun lookup :: "string list \<Rightarrow> string \<Rightarrow> int \<Rightarrow> (int \<times> string) option" where
  "lookup [] val i = None"
| "lookup (v # tab) val i =
     (if length val \<ge> length v \<and> match (take (length v) val) v
      then Some (i, drop (length v) val)
      else lookup tab val (i + 1))"

definition longMonthNames :: "string list" where
  "longMonthNames =
     [''January'', ''February'', ''March'', ''April'', ''May'', ''June'', ''July'', ''August'',
      ''September'', ''October'', ''November'', ''December'']"

definition commaOrPeriod :: "char \<Rightarrow> bool" where
  "commaOrPeriod c = (c = CHR ''.'' \<or> c = CHR '','')"

text \<open>
  \<^verbatim>\<open>parseNanoseconds\<close> is called on a value that starts with a period or comma and a
  digit, with \<open>nbytes\<close> the length of that fraction.
\<close>

definition parseNanoseconds :: "string \<Rightarrow> nat \<Rightarrow> ParseError + int" where
  "parseNanoseconds val nbytes =
     (if val = [] \<or> \<not> commaOrPeriod (val ! 0) then Inl errBad
      else (let nbytes = (if nbytes > 10 then 10 else nbytes);
                val = (if nbytes = 10 then take 10 val else val)
            in case atoi (take (nbytes - 1) (drop 1 val)) of
                 None \<Rightarrow> Inl errBad
               | Some ns \<Rightarrow>
                   if ns < 0 then Inl (errRange ''fractional second'')
                   else Inr (ns * 10 ^ (10 - nbytes))))"

text \<open>
  The time under construction. The variables for the day of the year, the 12-hour clock and
  the zone abbreviation are written only by elements outside the model and keep their
  initial values.
\<close>

record ParseState =
  st_year :: int
  st_month :: int
  st_day :: int
  st_hour :: int
  st_minute :: int
  st_sec :: int
  st_nsec :: int
  st_z :: "(int \<Rightarrow> int) option"
  st_zoneOffset :: int

definition isFracSecond :: "Std option \<Rightarrow> bool" where
  "isFracSecond std =
     (case std of
        Some (stdFracSecond0 n c) \<Rightarrow> True
      | Some (stdFracSecond9 n c) \<Rightarrow> True
      | _ \<Rightarrow> False)"

text \<open>
  The zone elements \<^verbatim>\<open>Z07:00\<close> (\<open>isoZ\<close>: a lone \<^verbatim>\<open>Z\<close> is accepted and means UTC) and
  \<^verbatim>\<open>-07:00\<close>.
\<close>

definition parseZone :: "bool \<Rightarrow> string \<Rightarrow> ParseState \<Rightarrow> ParseError + ParseState \<times> string" where
  "parseZone isoZ val st =
     (if isoZ \<and> length val \<ge> 1 \<and> val ! 0 = CHR ''Z''
      then Inr (st\<lparr>st_z := Some UTC\<rparr>, drop 1 val)
      else if length val < 6 then Inl errBad
      else if val ! 3 \<noteq> CHR '':'' then Inl errBad
      else (let sign = take 1 val; hh = take 2 (drop 1 val); mm = take 2 (drop 4 val);
                ss = ''00''; val = drop 6 val
            in case getnum hh True of
                 None \<Rightarrow> Inl errBad
               | Some (hr, _) \<Rightarrow>
                   (case getnum mm True of
                      None \<Rightarrow> Inl errBad
                    | Some (mi, _) \<Rightarrow>
                        (case getnum ss True of
                           None \<Rightarrow> Inl errBad
                         | Some (se, _) \<Rightarrow>
                             if hr > 24 \<or> mi > 60 \<or> se > 60
                             then Inl (errRange ''time zone offset'')
                             else if sign = ''+''
                             then Inr (st\<lparr>st_zoneOffset := (hr * 60 + mi) * 60 + se\<rparr>, val)
                             else if sign = ''-''
                             then Inr (st\<lparr>st_zoneOffset := - ((hr * 60 + mi) * 60 + se)\<rparr>, val)
                             else Inl errBad))))"

text \<open>
  One round of the \<^verbatim>\<open>switch\<close> over the element. \<open>fracNext\<close> tells whether the next element
  of the layout is a fraction of a second, which the case of the seconds looks up with
  \<^verbatim>\<open>nextStdChunk\<close>; a fraction in the value that the layout does not name is read as
  nanoseconds.
\<close>

definition parseStd ::
  "Std \<Rightarrow> bool \<Rightarrow> string \<Rightarrow> ParseState \<Rightarrow> ParseError + ParseState \<times> string" where
  "parseStd std fracNext val st =
     (case std of
        stdLongYear \<Rightarrow>
          (if length val < 4 \<or> \<not> isDigit val 0 then Inl errBad
           else (case atoi (take 4 val) of
                   None \<Rightarrow> Inl errBad
                 | Some y \<Rightarrow> Inr (st\<lparr>st_year := y\<rparr>, drop 4 val)))
      | stdLongMonth \<Rightarrow>
          (case lookup longMonthNames val 0 of
             None \<Rightarrow> Inl errBad
           | Some (m, val) \<Rightarrow> Inr (st\<lparr>st_month := m + 1\<rparr>, val))
      | stdNumMonth \<Rightarrow>
          (case getnum val False of
             None \<Rightarrow> Inl errBad
           | Some (m, val) \<Rightarrow>
               if m \<le> 0 \<or> 12 < m then Inl (errRange ''month'') else Inr (st\<lparr>st_month := m\<rparr>, val))
      | stdZeroMonth \<Rightarrow>
          (case getnum val True of
             None \<Rightarrow> Inl errBad
           | Some (m, val) \<Rightarrow>
               if m \<le> 0 \<or> 12 < m then Inl (errRange ''month'') else Inr (st\<lparr>st_month := m\<rparr>, val))
      | stdDay \<Rightarrow>
          (case getnum val False of
             None \<Rightarrow> Inl errBad
           | Some (d, val) \<Rightarrow> Inr (st\<lparr>st_day := d\<rparr>, val))
      | stdZeroDay \<Rightarrow>
          (case getnum val True of
             None \<Rightarrow> Inl errBad
           | Some (d, val) \<Rightarrow> Inr (st\<lparr>st_day := d\<rparr>, val))
      | stdHour \<Rightarrow>
          (case getnum val False of
             None \<Rightarrow> Inl errBad
           | Some (h, val) \<Rightarrow>
               if h < 0 \<or> 24 \<le> h then Inl (errRange ''hour'') else Inr (st\<lparr>st_hour := h\<rparr>, val))
      | stdZeroMinute \<Rightarrow>
          (case getnum val True of
             None \<Rightarrow> Inl errBad
           | Some (m, val) \<Rightarrow>
               if m < 0 \<or> 60 \<le> m then Inl (errRange ''minute'')
               else Inr (st\<lparr>st_minute := m\<rparr>, val))
      | stdZeroSecond \<Rightarrow>
          (case getnum val True of
             None \<Rightarrow> Inl errBad
           | Some (s, val) \<Rightarrow>
               if s < 0 \<or> 60 \<le> s then Inl (errRange ''second'')
               else if length val \<ge> 2 \<and> commaOrPeriod (val ! 0) \<and> isDigit val 1 then
                 (if fracNext
                  then Inr (st\<lparr>st_sec := s\<rparr>, val)
                  else (let n = 2 + length (takeWhile digit (drop 2 val))
                        in case parseNanoseconds val n of
                             Inl e \<Rightarrow> Inl e
                           | Inr ns \<Rightarrow> Inr (st\<lparr>st_sec := s, st_nsec := ns\<rparr>, drop n val)))
               else Inr (st\<lparr>st_sec := s\<rparr>, val))
      | stdISO8601ColonTZ \<Rightarrow> parseZone True val st
      | stdNumColonTZ \<Rightarrow> parseZone False val st
      | _ \<Rightarrow> Inl errUnmodelled)"

text \<open>The loop of \<^verbatim>\<open>parse\<close>: one element of the layout per round.\<close>

function parseLoop :: "string \<Rightarrow> string \<Rightarrow> ParseState \<Rightarrow> ParseError + ParseState" where
  "parseLoop layout val st =
     (case nextStdChunk layout of
        (prefix, std, suffix) \<Rightarrow>
          (case skip val prefix of
             None \<Rightarrow> Inl errBad
           | Some val \<Rightarrow>
               (case std of
                  None \<Rightarrow> if val \<noteq> [] then Inl errExtraText else Inr st
                | Some std \<Rightarrow>
                    (case parseStd std (isFracSecond (fst (snd (nextStdChunk suffix)))) val st of
                       Inl e \<Rightarrow> Inl e
                     | Inr (st, val) \<Rightarrow> parseLoop suffix val st))))"
  by pat_completeness auto
termination
  by (relation "measure (\<lambda>(layout, val, st). length layout)")
     (auto dest: nextStdChunk_shorter [OF sym])

declare parseLoop.simps [simp del]

text \<open>
  \<^verbatim>\<open>Date\<close> for a valid civil date and time of day: the days since 0001-01-01 in the
  proleptic Gregorian calendar, and the offset of the location taken off. The parse calls
  it with the month in 1..12, the day within the month, the hour below 24, minute and
  second below 60 and less than \<open>10^9\<close> nanoseconds, where \<^verbatim>\<open>Date\<close> has nothing to
  normalise, and with UTC as location.
\<close>

definition isLeap :: "int \<Rightarrow> bool" where
  "isLeap y = (y mod 4 = 0 \<and> (y mod 100 \<noteq> 0 \<or> y mod 400 = 0))"

definition daysBefore :: "int \<Rightarrow> int" where
  "daysBefore m = [0, 31, 59, 90, 120, 151, 181, 212, 243, 273, 304, 334, 365] ! nat m"

definition daysIn :: "int \<Rightarrow> int \<Rightarrow> int" where
  "daysIn m y = (if m = 2 \<and> isLeap y then 29 else daysBefore m - daysBefore (m - 1))"

definition Date :: "int \<Rightarrow> int \<Rightarrow> int \<Rightarrow> int \<Rightarrow> int \<Rightarrow> int \<Rightarrow> int \<Rightarrow> (int \<Rightarrow> int) \<Rightarrow> Time" where
  "Date y m d h mi s ns loc =
     (let y1 = y - 1;
          days = 365 * y1 + y1 div 4 - y1 div 100 + y1 div 400 + daysBefore (m - 1) +
                 (if isLeap y \<and> 3 \<le> m then 1 else 0) + (d - 1);
          secs = days * 86400 + h * 3600 + mi * 60 + s
      in \<lparr>instant = (secs - loc secs) * Second + ns, zone = loc\<rparr>)"

text \<open>
  \<^verbatim>\<open>time.Parse\<close>: the loop, the check of the day against the month, and the location.
  A numeric offset gives the local zone when that has the same offset at the instant, and
  a fixed zone otherwise; \<open>local\<close> is the offset function of \<^verbatim>\<open>time.Local\<close>.
\<close>

definition initialState :: ParseState where
  "initialState =
     \<lparr>st_year = 0, st_month = - 1, st_day = - 1, st_hour = 0, st_minute = 0, st_sec = 0, st_nsec = 0, st_z = None,
      st_zoneOffset = - 1\<rparr>"

definition time_Parse :: "(int \<Rightarrow> int) \<Rightarrow> string \<Rightarrow> string \<Rightarrow> ParseError + Time" where
  "time_Parse local layout val =
     (case parseLoop layout val initialState of
        Inl e \<Rightarrow> Inl e
      | Inr st \<Rightarrow>
          (let m = (if st_month st < 0 then 1 else st_month st);
               d = (if st_day st < 0 then 1 else st_day st)
           in if d < 1 \<or> d > daysIn m (st_year st) then Inl (errRange ''day'')
              else (case st_z st of
                      Some loc \<Rightarrow> Inr (Date (st_year st) m d (st_hour st) (st_minute st) (st_sec st) (st_nsec st) loc)
                    | None \<Rightarrow>
                        if st_zoneOffset st \<noteq> - 1
                        then (let t = Date (st_year st) m d (st_hour st) (st_minute st) (st_sec st) (st_nsec st) UTC;
                                  t = t\<lparr>instant := instant t - st_zoneOffset st * Second\<rparr>
                              in if local (instant t div Second) = st_zoneOffset st
                                 then Inr (t\<lparr>zone := local\<rparr>)
                                 else Inr (t\<lparr>zone := (\<lambda>_. st_zoneOffset st)\<rparr>))
                        else Inr (Date (st_year st) m d (st_hour st) (st_minute st) (st_sec st) (st_nsec st) UTC))))"
subsection \<open>\<^verbatim>\<open>parseDate\<close>\<close>

text \<open>
  \<^verbatim>\<open>parseDate\<close> is the code of the repository; \<^verbatim>\<open>time.Parse\<close> is its parameter. The
  function tries the nine layouts of its list in order, then \<^verbatim>\<open>time.RFC3339\<close>, and
  fails with an error that carries the string.
\<close>

definition layouts :: "string list" where
  "layouts =
     [''2006-01-02T15:04:05Z'',
      ''2006-01-02T15:04:05'',
      ''2006-01-02T15:04:05-07:00'',
      ''2006-01-02'',
      ''02/01/2006 15:04'',
      ''02/01/2006'',
      ''1/2/2006'',
      ''January 2, 2006'',
      ''2006/01/02'']"

definition RFC3339 :: string where
  "RFC3339 = ''2006-01-02T15:04:05Z07:00''"

fun tryLayouts :: "(string \<Rightarrow> string \<Rightarrow> ParseError + Time) \<Rightarrow> string list \<Rightarrow> string \<Rightarrow> Time option" where
  "tryLayouts parse [] dateStr = None"
| "tryLayouts parse (layout # rest) dateStr =
     (case parse layout dateStr of
        Inr t \<Rightarrow> Some t
      | Inl err \<Rightarrow> tryLayouts parse rest dateStr)"

definition parseDate :: "(string \<Rightarrow> string \<Rightarrow> ParseError + Time) \<Rightarrow> string \<Rightarrow> error + Time" where
  "parseDate parse dateStr =
     (case tryLayouts parse layouts dateStr of
        Some t \<Rightarrow> Inr t
      | None \<Rightarrow>
          (case parse RFC3339 dateStr of
             Inr t \<Rightarrow> Inr t
           | Inl err \<Rightarrow> Inl (UnrecognizedDateFormat dateStr)))"

text \<open>
  The specification's words: the supported patterns are the patterns that the function
  attempts, in the order in which it attempts them; the result is that of the first
  pattern that parses the string.
\<close>

definition supportedLayouts :: "string list" where
  "supportedLayouts = layouts @ [RFC3339]"

definition firstMatch ::
  "(string \<Rightarrow> string \<Rightarrow> ParseError + Time) \<Rightarrow> string list \<Rightarrow> string \<Rightarrow> string option" where
  "firstMatch parse ls dateStr = List.find (\<lambda>layout. \<not> isl (parse layout dateStr)) ls"
subsection \<open>The layout as a list of elements\<close>

text \<open>
  For the proofs, the layout is cut into its elements once: each element with the literal
  prefix in front of it and with the flag that the case of the seconds asks for, and the
  literal text after the last element. \<open>parseChunks\<close> runs the rounds of the loop over
  such a list and \<open>parseEnd\<close> is the last round, which finds no element.
\<close>

function tokens :: "string \<Rightarrow> (string \<times> Std \<times> bool) list \<times> string" where
  "tokens layout =
     (case nextStdChunk layout of
        (prefix, None, suffix) \<Rightarrow> ([], prefix)
      | (prefix, Some std, suffix) \<Rightarrow>
          (case tokens suffix of
             (chunks, final) \<Rightarrow>
               ((prefix, std, isFracSecond (fst (snd (nextStdChunk suffix)))) # chunks, final)))"
  by pat_completeness auto
termination
  by (relation "measure length") (auto dest: nextStdChunk_shorter [OF sym])

declare tokens.simps [simp del]

fun parseChunks ::
  "(string \<times> Std \<times> bool) list \<Rightarrow> string \<Rightarrow> ParseState \<Rightarrow> ParseError + ParseState \<times> string" where
  "parseChunks [] val st = Inr (st, val)"
| "parseChunks ((prefix, std, fracNext) # chunks) val st =
     (case skip val prefix of
        None \<Rightarrow> Inl errBad
      | Some val \<Rightarrow>
          (case parseStd std fracNext val st of
             Inl e \<Rightarrow> Inl e
           | Inr (st, val) \<Rightarrow> parseChunks chunks val st))"

definition parseEnd :: "string \<Rightarrow> string \<Rightarrow> ParseState \<Rightarrow> ParseError + ParseState" where
  "parseEnd prefix val st =
     (case skip val prefix of
        None \<Rightarrow> Inl errBad
      | Some val \<Rightarrow> if val \<noteq> [] then Inl errExtraText else Inr st)"

text \<open>
  The elements that the three date-time layouts and \<^verbatim>\<open>time.RFC3339\<close> have in common.
\<close>

definition dateTime :: "(string \<times> Std \<times> bool) list" where
  "dateTime =
     [([], stdLongYear, False), (''-'', stdZeroMonth, False), (''-'', stdZeroDay, False),
      (''T'', stdHour, False), ('':'', stdZeroMinute, False), ('':'', stdZeroSecond, False)]"

text \<open>
  A string is sorted by its leading digits, the separator after them and its length;
  \<open>kind\<close> numbers the layouts of the list from 1 to 9 in this way. A date-time string is
  sorted by what is left of it after the common elements.
\<close>

definition leadingDigits :: "string \<Rightarrow> nat" where
  "leadingDigits s = length (takeWhile digit s)"

definition sepAt :: "string \<Rightarrow> nat \<Rightarrow> char \<Rightarrow> bool" where
  "sepAt s i c = (i < length s \<and> s ! i = c)"

definition kind :: "string \<Rightarrow> nat" where
  "kind s =
     (if leadingDigits s = 4 \<and> sepAt s 4 (CHR ''-'') then
        (if length s = 10 then 4
         else (case parseChunks dateTime s initialState of
                 Inr (st, rest) \<Rightarrow> if rest = [] then 2 else if rest = ''Z'' then 1 else 3
               | Inl e \<Rightarrow> 0))
      else if leadingDigits s = 4 \<and> sepAt s 4 (CHR ''/'') then 9
      else if leadingDigits s = 2 \<and> sepAt s 2 (CHR ''/'') \<and> length s = 10 then 6
      else if leadingDigits s = 2 \<and> sepAt s 2 (CHR ''/'') \<and> length s > 10 then 5
      else if leadingDigits s = 0 then 8
      else 7)"
section \<open>Lemmas on the working-day loop\<close>

lemma isDayOff_iff: "isDayOff d offs = inExclusion d offs"
  by (induction offs) (auto simp: inExclusion_def Time_Equal_def Time_After_def Time_Before_def)

lemma day_pos: "0 < 24 * Hour"
  by (simp add: Hour_def Second_def)

lemma int_le_div_iff:
  fixes a b c :: int
  assumes "0 < c"
  shows "(a \<le> b div c) = (a * c \<le> b)"
proof -
  have "(b + (- a) * c) div c = - a + b div c"
    using assms by (intro div_mult_self1) simp
  then have "(b - a * c) div c = b div c - a"
    by simp
  then have "(0 \<le> b div c - a) = (0 \<le> b - a * c)"
    using pos_imp_zdiv_nonneg_iff [OF assms, of "b - a * c"] by simp
  then show ?thesis by linarith
qed

lemma lt_daySteps_iff:
  "(k < daySteps start endT) = (instant start + int k * (24 * Hour) \<le> instant endT)"
proof (cases "instant start \<le> instant endT")
  case True
  have "0 \<le> (instant endT - instant start) div (24 * Hour)"
    using True day_pos by (simp add: pos_imp_zdiv_nonneg_iff)
  then have "(k < daySteps start endT) = (int k \<le> (instant endT - instant start) div (24 * Hour))"
    using True by (auto simp: daySteps_def)
  also have "\<dots> = (int k * (24 * Hour) \<le> instant endT - instant start)"
    by (rule int_le_div_iff [OF day_pos])
  finally show ?thesis by auto
next
  case False
  have "0 \<le> int k * (24 * Hour)"
    using day_pos by (intro mult_nonneg_nonneg) simp_all
  with False have "\<not> instant start + int k * (24 * Hour) \<le> instant endT"
    by linarith
  moreover from False have "daySteps start endT = 0"
    by (simp add: daySteps_def)
  ultimately show ?thesis by simp
qed

lemma Time_Add_Add: "Time_Add (Time_Add t a) b = Time_Add t (a + b)"
  by (simp add: Time_Add_def)

lemma Time_Add_0: "Time_Add t 0 = t"
  by (simp add: Time_Add_def)

lemma daySteps_step:
  assumes "instant current \<le> instant endT"
  shows "daySteps current endT = Suc (daySteps (Time_Add current (24 * Hour)) endT)"
proof -
  have "(k < daySteps current endT) = (k < Suc (daySteps (Time_Add current (24 * Hour)) endT))"
    for k
  proof (cases k)
    case 0
    with assms show ?thesis by (simp add: lt_daySteps_iff)
  next
    case (Suc j)
    then show ?thesis
      by (simp add: lt_daySteps_iff Time_Add_def algebra_simps)
  qed
  then show ?thesis
    by (metis less_irrefl linorder_neqE_nat)
qed

lemma dayList_step:
  assumes "instant current \<le> instant endT"
  shows "dayList current endT = current # dayList (Time_Add current (24 * Hour)) endT"
proof -
  let ?n = "daySteps (Time_Add current (24 * Hour)) endT"
  have "dayList current endT =
      map (\<lambda>k. Time_Add current (int k * (24 * Hour))) [0 ..< Suc ?n]"
    by (simp only: dayList_def daySteps_step [OF assms])
  also have "\<dots> = Time_Add current 0 #
      map (\<lambda>k. Time_Add current (int (Suc k) * (24 * Hour))) [0 ..< ?n]"
    by (simp only: map_upt_Suc) simp
  also have "\<dots> = current # dayList (Time_Add current (24 * Hour)) endT"
    by (simp add: dayList_def Time_Add_Add Time_Add_0 algebra_simps)
  finally show ?thesis .
qed

lemma dayList_empty: "\<not> instant current \<le> instant endT \<Longrightarrow> dayList current endT = []"
  by (simp add: dayList_def daySteps_def)

lemma workingDaysLoop_count:
  "workingDaysLoop endT offs current wd =
     wd + int (length (filter (\<lambda>d. \<not> isWeekend d \<and> \<not> inExclusion d offs)
                        (dayList current endT)))"
proof (induction endT offs current wd rule: workingDaysLoop.induct)
  case (1 endT daysOff current workingDays)
  show ?case
  proof (cases "instant current \<le> instant endT")
    case True
    then have c: "Time_Before current endT \<or> Time_Equal current endT"
      by (auto simp: Time_Before_def Time_Equal_def)
    show ?thesis
      using "1.IH" [OF c]
      by (subst workingDaysLoop.simps)
         (simp add: c dayList_step [OF True] isDayOff_iff isWeekend_def)
  next
    case False
    then have c: "\<not> (Time_Before current endT \<or> Time_Equal current endT)"
      by (auto simp: Time_Before_def Time_Equal_def)
    show ?thesis
      by (subst workingDaysLoop.simps) (simp add: c dayList_empty [OF False])
  qed
qed

lemma set_dayList: "set (dayList start endT) = visitedInstants start endT"
  by (auto simp: dayList_def visitedInstants_def lt_daySteps_iff Time_Add_def)

lemma distinct_dayList: "distinct (dayList start endT)"
proof -
  have "inj_on (\<lambda>k. Time_Add start (int k * (24 * Hour))) (set [0 ..< daySteps start endT])"
  proof (rule inj_onI)
    fix x y :: nat
    assume "Time_Add start (int x * (24 * Hour)) = Time_Add start (int y * (24 * Hour))"
    then have "instant (Time_Add start (int x * (24 * Hour))) =
               instant (Time_Add start (int y * (24 * Hour)))"
      by simp
    then show "x = y"
      using day_pos by (simp add: Time_Add_def)
  qed
  then show ?thesis
    by (simp add: dayList_def distinct_map)
qed

lemma calculateWorkingDays_card:
  "calculateWorkingDays start endT offs =
     int (card {d \<in> visitedInstants start endT. \<not> isWeekend d \<and> \<not> inExclusion d offs})"
proof -
  let ?P = "\<lambda>d. \<not> isWeekend d \<and> \<not> inExclusion d offs"
  have "calculateWorkingDays start endT offs = int (length (filter ?P (dayList start endT)))"
    by (simp add: calculateWorkingDays_def workingDaysLoop_count)
  also have "length (filter ?P (dayList start endT)) = card ({d. ?P d} \<inter> set (dayList start endT))"
    by (rule distinct_length_filter [OF distinct_dayList])
  also have "{d. ?P d} \<inter> set (dayList start endT) = {d \<in> visitedInstants start endT. ?P d}"
    unfolding set_dayList by blast
  finally show ?thesis .
qed

lemma calculateWorkingDays_inverted:
  "Time_After start endT \<Longrightarrow> calculateWorkingDays start endT offs = 0"
  by (simp add: calculateWorkingDays_def workingDaysLoop_count dayList_empty Time_After_def)

lemma absent_end_gives_zero:
  assumes "Time_IsZero sprintEnd" and "0 < instant sprintStart"
  shows "calculateWorkingDays sprintStart sprintEnd daysOff = 0"
  using assms by (intro calculateWorkingDays_inverted) (simp add: Time_IsZero_def Time_After_def)

lemma length_filter_mono:
  "(\<And>x. P x \<Longrightarrow> Q x) \<Longrightarrow> length (filter P xs) \<le> length (filter Q xs)"
  by (induction xs) auto
lemma calculateWorkingDays_zero_zero: "calculateWorkingDays zeroTime zeroTime [] = 1"
  by (simp add: calculateWorkingDays_def workingDaysLoop.simps zeroTime_def UTC_def
      Time_Before_def Time_Equal_def Time_Add_def Time_Weekday_def weekdayOf_def Hour_def
      Second_def)

text \<open>
  The two scenarios of the specification: 2024-06-03 (a Monday) to 2024-06-14 (a Friday)
  has ten working days, and eight when Monday and Tuesday of the second week are excluded.
\<close>

lemmas workingDays_eval =
  calculateWorkingDays_def workingDaysLoop.simps day_def UTC_def Time_Before_def Time_Equal_def
  Time_After_def Time_Add_def Time_Weekday_def weekdayOf_def Hour_def Second_def


lemma scenario_two_days_off:
  "calculateWorkingDays (day 739039) (day 739050)
     [\<lparr>Start = day 739046, End = day 739047\<rparr>] = 8"
  by (simp add: workingDays_eval)

subsection \<open>Timestamps at midnight UTC\<close>

text \<open>
  When \<open>start\<close>, \<open>endT\<close> and the bounds of the exclusion intervals are all at midnight UTC,
  the visited instants are the calendar days of the range, one instant per date, and the
  loop's count is the count of the specification.
\<close>

lemma upto_as_map: "[n..m] = map (\<lambda>k. n + int k) [0 ..< nat (m - n + 1)]"
proof (induction "nat (m - n + 1)" arbitrary: m)
  case 0
  then show ?case by simp
next
  case (Suc x)
  then have le: "n \<le> m" and x: "x = nat ((m - 1) - n + 1)"
    by auto
  have "[n..m] = [n..m - 1] @ [m]"
    using le by (rule upto_rec2)
  also have "[n..m - 1] = map (\<lambda>k. n + int k) [0 ..< x]"
    using Suc.hyps(1) [OF x] x by simp
  finally show ?case
    using Suc.hyps(2) [symmetric] le x by simp
qed

lemma calendarDay_midnight:
  assumes "atMidnightUTC t"
  shows "calendarDay t = instant t div (24 * Hour)" "instant t = calendarDay t * (24 * Hour)"
proof -
  have "instant t div (24 * Hour) = instant t div Second div 86400"
    by (simp add: Hour_def Second_def zdiv_zmult2_eq)
  with assms show c: "calendarDay t = instant t div (24 * Hour)"
    by (simp add: calendarDay_def atMidnightUTC_def UTC_def Let_def)
  from assms have "instant t = instant t div (24 * Hour) * (24 * Hour)"
    using div_mult_mod_eq [of "instant t" "24 * Hour"] by (simp add: atMidnightUTC_def)
  with c show "instant t = calendarDay t * (24 * Hour)"
    by simp
qed

lemma mult_day_le: "(a * (24 * Hour) \<le> b * (24 * Hour)) = (a \<le> b)"
  using day_pos by simp

lemma step_midnight:
  assumes "atMidnightUTC start"
  shows "atMidnightUTC (Time_Add start (int k * (24 * Hour)))"
    and "calendarDay (Time_Add start (int k * (24 * Hour))) = calendarDay start + int k"
proof -
  show m: "atMidnightUTC (Time_Add start (int k * (24 * Hour)))"
    using assms by (simp add: atMidnightUTC_def Time_Add_def)
  have "instant (Time_Add start (int k * (24 * Hour))) = (calendarDay start + int k) * (24 * Hour)"
    using calendarDay_midnight(2) [OF assms] by (simp add: Time_Add_def algebra_simps)
  then show "calendarDay (Time_Add start (int k * (24 * Hour))) = calendarDay start + int k"
    using calendarDay_midnight(1) [OF m] day_pos by simp
qed

lemma isWeekend_midnight:
  assumes "atMidnightUTC t"
  shows "isWeekend t = calendarWeekend (calendarDay t)"
  using assms
  by (simp add: isWeekend_def calendarWeekend_def Time_Weekday_def calendarDay_def Let_def)

lemma inExclusion_midnight:
  assumes "atMidnightUTC t"
    and "\<forall>off \<in> set offs. atMidnightUTC (Start off) \<and> atMidnightUTC (End off)"
  shows "inExclusion t offs = calendarExcluded (calendarDay t) offs"
proof -
  have "(instant (Start off) \<le> instant t \<and> instant t \<le> instant (End off)) =
        (calendarDay (Start off) \<le> calendarDay t \<and> calendarDay t \<le> calendarDay (End off))"
    if "off \<in> set offs" for off
  proof -
    from that assms(2) have s: "atMidnightUTC (Start off)" and e: "atMidnightUTC (End off)"
      by auto
    have "(instant (Start off) \<le> instant t) = (calendarDay (Start off) \<le> calendarDay t)"
      using calendarDay_midnight(2) [OF s] calendarDay_midnight(2) [OF assms(1)]
        mult_day_le [of "calendarDay (Start off)" "calendarDay t"]
      by simp
    moreover have "(instant t \<le> instant (End off)) = (calendarDay t \<le> calendarDay (End off))"
      using calendarDay_midnight(2) [OF e] calendarDay_midnight(2) [OF assms(1)]
        mult_day_le [of "calendarDay t" "calendarDay (End off)"]
      by simp
    ultimately show ?thesis
      by simp
  qed
  then show ?thesis
    by (auto simp: inExclusion_def calendarExcluded_def)
qed

lemma daySteps_midnight:
  assumes "atMidnightUTC start" "atMidnightUTC endT"
  shows "daySteps start endT = nat (calendarDay endT - calendarDay start + 1)"
proof -
  let ?n = "calendarDay start" and ?m = "calendarDay endT"
  have i: "instant start = ?n * (24 * Hour)" "instant endT = ?m * (24 * Hour)"
    using assms by (simp_all add: calendarDay_midnight(2))
  have d: "(?m * (24 * Hour) - ?n * (24 * Hour)) div (24 * Hour) = ?m - ?n"
    using day_pos by (simp add: left_diff_distrib [symmetric])
  show ?thesis
    unfolding daySteps_def i mult_day_le d by auto
qed

lemma calculateWorkingDays_midnight:
  assumes "atMidnightUTC start" "atMidnightUTC endT"
    and "\<forall>off \<in> set offs. atMidnightUTC (Start off) \<and> atMidnightUTC (End off)"
  shows "calculateWorkingDays start endT offs = calendarWorkingDays start endT offs"
proof -
  let ?f = "\<lambda>k. Time_Add start (int k * (24 * Hour))"
  let ?N = "nat (calendarDay endT - calendarDay start + 1)"
  have "(\<not> isWeekend (?f k) \<and> \<not> inExclusion (?f k) offs) =
        (\<not> calendarWeekend (calendarDay start + int k) \<and>
         \<not> calendarExcluded (calendarDay start + int k) offs)" for k
    using isWeekend_midnight [OF step_midnight(1) [OF assms(1)], of k]
      inExclusion_midnight [OF step_midnight(1) [OF assms(1)] assms(3), of k]
    by (simp add: step_midnight(2) [OF assms(1)])
  then have "filter ((\<lambda>d. \<not> isWeekend d \<and> \<not> inExclusion d offs) \<circ> ?f) [0 ..< ?N] =
      filter ((\<lambda>d. \<not> calendarWeekend d \<and> \<not> calendarExcluded d offs) \<circ>
              (\<lambda>k. calendarDay start + int k)) [0 ..< ?N]"
    by (intro filter_cong) (simp_all add: o_def)
  then show ?thesis
    by (simp add: calculateWorkingDays_def workingDaysLoop_count dayList_def
        daySteps_midnight [OF assms(1,2)] calendarWorkingDays_def
        upto_as_map [of "calendarDay start" "calendarDay endT"] filter_map)
qed

section \<open>Lemmas on the sprint scan\<close>

lemma buildSprint_IsCurrent:
  "IsCurrent (buildSprint uuid_Parse now iteration name) = nowInOpenRange now iteration"
  by (auto simp: buildSprint_def nowInOpenRange_def startOf_def endOf_def Let_def zeroTime_def
      Time_IsZero_def Time_After_def Time_Before_def split: option.splits)

lemma scanIterations_fst:
  "fst (scanIterations p now its i (acc, cur)) =
     acc @ map (\<lambda>iteration. buildSprint p now iteration (the (TeamSettingsIteration.Name iteration))) (named its)"
  by (induction its arbitrary: i acc cur) (auto simp: named_def Let_def split: option.splits)
lemma buildSprint_Name: "Sprint.Name (buildSprint uuid_Parse now iteration name) = name"
  by (simp add: buildSprint_def Let_def split: option.splits)

lemma last_index_Cons:
  assumes "k < length xs" "P (xs ! k)" "\<forall>j. k < j \<and> j < length xs \<longrightarrow> \<not> P (xs ! j)"
  shows "Suc k < length (x # xs) \<and> P ((x # xs) ! Suc k) \<and>
         (\<forall>j. Suc k < j \<and> j < length (x # xs) \<longrightarrow> \<not> P ((x # xs) ! j))"
  using assms by (auto simp: nth_Cons split: nat.splits)

lemma last_index_hd:
  assumes "P x" "\<forall>y \<in> set xs. \<not> P y"
  shows "0 < length (x # xs) \<and> P ((x # xs) ! 0) \<and>
         (\<forall>j. 0 < j \<and> j < length (x # xs) \<longrightarrow> \<not> P ((x # xs) ! j))"
  using assms by (auto simp: nth_Cons split: nat.splits)
lemma scanIterations_snd:
  "if \<exists>iteration \<in> set its. marked now iteration
   then \<exists>k. lastMarkedAt now its k \<and> snd (scanIterations p now its i (acc, cur)) = i + int k
   else snd (scanIterations p now its i (acc, cur)) = cur"
proof (induction its arbitrary: i acc cur)
  case Nil
  then show ?case by simp
next
  case (Cons x xs)
  define acc' where "acc' = (case TeamSettingsIteration.Name x of None \<Rightarrow> acc
      | Some name \<Rightarrow> acc @ [buildSprint p now x name])"
  define cur' where "cur' = (if marked now x then i else cur)"
  have sc: "scanIterations p now (x # xs) i (acc, cur) = scanIterations p now xs (i + 1) (acc', cur')"
    by (auto simp: acc'_def cur'_def marked_def buildSprint_IsCurrent Let_def split: option.splits)
  show ?case
  proof (cases "\<exists>iteration \<in> set xs. marked now iteration")
    case True
    with Cons.IH [of "i + 1" acc' cur']
    obtain k where k: "lastMarkedAt now xs k"
      "snd (scanIterations p now xs (i + 1) (acc', cur')) = i + 1 + int k"
      by auto
    from k(1) have "lastMarkedAt now (x # xs) (Suc k)"
      unfolding lastMarkedAt_def by (intro last_index_Cons) auto
    moreover have "snd (scanIterations p now (x # xs) i (acc, cur)) = i + int (Suc k)"
      using k(2) sc by simp
    ultimately show ?thesis
      using True by auto
  next
    case False
    with Cons.IH [of "i + 1" acc' cur']
    have r: "snd (scanIterations p now (x # xs) i (acc, cur)) = cur'"
      using sc by auto
    show ?thesis
    proof (cases "marked now x")
      case True
      with False have "lastMarkedAt now (x # xs) 0"
        unfolding lastMarkedAt_def by (intro last_index_hd) auto
      moreover have "snd (scanIterations p now (x # xs) i (acc, cur)) = i + int 0"
        using r True by (simp add: cur'_def)
      ultimately show ?thesis
        using True by (metis list.set_intros(1))
    next
      case nm: False
      with False r show ?thesis
        by (auto simp: cur'_def)
    qed
  qed
qed

text \<open>When every iteration has a name the index fits the list of sprints and the slice exists.\<close>

lemma scanIterations_length:
  "length (fst (scanIterations p now its i (acc, cur))) = length acc + length (named its)"
  by (simp add: scanIterations_fst)

lemma sprintsHandler_all_named:
  assumes "\<forall>iteration \<in> set its. TeamSettingsIteration.Name iteration \<noteq> None"
  shows "\<exists>window. sprintsHandler p now (Some its) = Inr window"
proof (cases "its = []")
  case True
  then show ?thesis
    by (simp add: sprintsHandler_def)
next
  case False
  obtain allSprints c where sc: "scanIterations p now its 0 ([], - 1) = (allSprints, c)"
    by (cases "scanIterations p now its 0 ([], - 1)") auto
  from assms have "named its = its"
    by (simp add: named_def)
  with scanIterations_length [of p now its 0 "[]" "- 1"] sc
  have len: "length allSprints = length its"
    by simp
  have c: "c = - 1 \<or> (0 \<le> c \<and> c < int (length its))"
    using scanIterations_snd [of its now p 0 "[]" "- 1"] sc
    by (auto simp: lastMarkedAt_def split: if_splits)
  then show ?thesis
    using False sc len
    by (auto simp: sprintsHandler_def slice_def Let_def)
qed

lemmas sprints_eval =
  sprintsHandler_def iter_def day_def buildSprint_def Let_def zeroTime_def Time_IsZero_def
  Time_After_def Time_Before_def Hour_def Second_def slice_def

section \<open>Lemmas on the capacity loops\<close>






section \<open>Claims on the working-day count\<close>

text \<open>
  C1. The claim: for all timestamps \<open>start\<close>, \<open>endT\<close> and every list of exclusion
  intervals, \<^verbatim>\<open>calculateWorkingDays\<close> is the number of calendar days of the inclusive range
  from \<open>start\<close> to \<open>endT\<close> that are neither Saturday nor Sunday and lie in no exclusion
  interval. It fails as soon as a timestamp carries a time of day. From Monday 2024-06-03
  10:00 to Tuesday 2024-06-04 09:00 the range has two calendar days, both weekdays; the
  loop visits Monday 10:00, finds Tuesday 10:00 after the end and returns 1. From Monday
  2024-06-03 09:00 to Friday 2024-06-14 09:00, with Monday 2024-06-10 and Tuesday
  2024-06-11 excluded by an interval given at midnight, eight working days remain; the
  loop visits Tuesday at 09:00, which is after the interval's end at 00:00, counts it and
  returns 9.
\<close>

theorem calculateWorkingDays_is_not_calendar_count:
  "calculateWorkingDays (dayAt 739039 10) (dayAt 739040 9) [] = 1
   \<and> calendarWorkingDays (dayAt 739039 10) (dayAt 739040 9) [] = 2
   \<and> calculateWorkingDays (dayAt 739039 9) (dayAt 739050 9)
        [\<lparr>Start = day 739046, End = day 739047\<rparr>] = 9
   \<and> calendarWorkingDays (dayAt 739039 9) (dayAt 739050 9)
        [\<lparr>Start = day 739046, End = day 739047\<rparr>] = 8"
  by (simp add: workingDays_eval dayAt_def calendarWorkingDays_def calendarDay_def
      calendarWeekend_def calendarExcluded_def upto_rec_numeral)

text \<open>
  C1, as amended. For all timestamps \<open>start\<close>, \<open>endT\<close> and every list of exclusion
  intervals, \<^verbatim>\<open>calculateWorkingDays\<close> is the number of instants \<open>d\<close> among \<open>start\<close>,
  \<open>start\<close> + 24h, \<open>start\<close> + 48h, \<dots> that are not after \<open>endT\<close>, such that the weekday of
  \<open>d\<close> is neither Saturday nor Sunday and no exclusion interval holds \<open>d\<close>, compared as an
  instant with both ends of the interval included. When \<open>start\<close> is after \<open>endT\<close> the
  result is 0, and with no exclusion interval the result is the number of visited instants
  that fall on a weekday. When \<open>start\<close>, \<open>endT\<close> and all bounds of the exclusion intervals
  are at midnight UTC, the result is the number of calendar days of the inclusive range
  that are neither Saturday nor Sunday and lie in no exclusion interval.
\<close>

theorem calculateWorkingDays_counts_visited_instants:
  "calculateWorkingDays start endT offs =
     int (card {d \<in> visitedInstants start endT. \<not> isWeekend d \<and> \<not> inExclusion d offs})
   \<and> (Time_After start endT \<longrightarrow> calculateWorkingDays start endT offs = 0)
   \<and> calculateWorkingDays start endT [] =
       int (card {d \<in> visitedInstants start endT. \<not> isWeekend d})
   \<and> (atMidnightUTC start \<and> atMidnightUTC endT \<and>
       (\<forall>off \<in> set offs. atMidnightUTC (Start off) \<and> atMidnightUTC (End off)) \<longrightarrow>
       calculateWorkingDays start endT offs = calendarWorkingDays start endT offs)"
proof -
  have "calculateWorkingDays start endT [] =
      int (card {d \<in> visitedInstants start endT. \<not> isWeekend d \<and> \<not> inExclusion d []})"
    by (rule calculateWorkingDays_card)
  then have "calculateWorkingDays start endT [] =
      int (card {d \<in> visitedInstants start endT. \<not> isWeekend d})"
    by (simp add: inExclusion_def)
  then show ?thesis
    using calculateWorkingDays_card [of start endT offs]
      calculateWorkingDays_inverted [of start endT offs]
      calculateWorkingDays_midnight [of start endT offs]
    by blast
qed

theorem calculateWorkingDays_counts_visited_instants_witness:
  "Time_After (day 739050) (day 739039)
   \<and> calculateWorkingDays (day 739050) (day 739039)
        [\<lparr>Start = day 739046, End = day 739047\<rparr>] = 0
   \<and> atMidnightUTC (day 739039) \<and> atMidnightUTC (day 739050)
   \<and> atMidnightUTC (day 739046) \<and> atMidnightUTC (day 739047)
   \<and> calculateWorkingDays (day 739039) (day 739050)
        [\<lparr>Start = day 739046, End = day 739047\<rparr>] = 8
   \<and> calendarWorkingDays (day 739039) (day 739050)
        [\<lparr>Start = day 739046, End = day 739047\<rparr>] = 8"
proof -
  have after: "Time_After (day 739050) (day 739039)"
    by (simp add: Time_After_def day_def Hour_def Second_def)
  have midnight: "atMidnightUTC (day n)" for n
    by (simp add: atMidnightUTC_def day_def)
  have count: "calculateWorkingDays (day 739039) (day 739050)
                 [\<lparr>Start = day 739046, End = day 739047\<rparr>] = 8"
    by (simp add: workingDays_eval)
  from after midnight count
    calculateWorkingDays_counts_visited_instants
      [of "day 739050" "day 739039" "[\<lparr>Start = day 739046, End = day 739047\<rparr>]"]
    calculateWorkingDays_counts_visited_instants
      [of "day 739039" "day 739050" "[\<lparr>Start = day 739046, End = day 739047\<rparr>]"]
  show ?thesis
    by simp
qed

text \<open>
  C9. With \<open>start\<close> and \<open>endT\<close> fixed, appending one more exclusion interval to the list
  never makes the working-day count larger.
\<close>

theorem calculateWorkingDays_antimono:
  "calculateWorkingDays start endT (E @ [x]) \<le> calculateWorkingDays start endT E"
proof -
  have "inExclusion d E \<Longrightarrow> inExclusion d (E @ [x])" for d
    by (auto simp: inExclusion_def)
  then have "length (filter (\<lambda>d. \<not> isWeekend d \<and> \<not> inExclusion d (E @ [x])) (dayList start endT))
           \<le> length (filter (\<lambda>d. \<not> isWeekend d \<and> \<not> inExclusion d E) (dayList start endT))"
    by (intro length_filter_mono) blast
  then show ?thesis
    by (simp add: calculateWorkingDays_def workingDaysLoop_count)
qed

text \<open>
  C2. The claim: when the start date or the end date of the sprint is absent (the zero
  time), \<^verbatim>\<open>calculateWorkingDays\<close> returns 0 and all capacities are 0. The code has no test
  for the zero time on this path. For an iteration without dates both ends are the zero
  time, 0001-01-01T00:00:00 UTC, which is a Monday: the loop runs once and counts it. With
  two developers the answer reports one working day, 8 hours for each developer and 16
  hours in total.
\<close>

theorem absent_dates_give_one_working_day:
  "developersHandler \<lparr>Attributes = None, Name = Some ''Backlog'', Path = None\<rparr>
     [''Ana'', ''Bruno'', ''Ana''] [''Ana'', ''Bruno''] [''Bruno'', ''Ana''] =
   \<lparr>Developers =
      [\<lparr>Developer.Name = ''Ana'', Email = '''', Tasks = 2, CapacityPerDay = 8,
        TotalCapacity = 8, DaysOff = 0\<rparr>,
       \<lparr>Developer.Name = ''Bruno'', Email = '''', Tasks = 1, CapacityPerDay = 8,
        TotalCapacity = 8, DaysOff = 0\<rparr>],
    SprintStart = zeroTime, SprintEnd = zeroTime, TotalCapacity = 16, TotalDaysOff = 0,
    WorkingDays = 1\<rparr>"
  by (simp add: developersHandler_def sprintRange_def developersCapacity_def rangeOver_def
      List.map_filter_def defaultCapacity_def calculateWorkingDays_zero_zero Let_def)

section \<open>Claims on the sprint window\<close>

text \<open>
  C3. The claim: an iteration is marked current exactly when both dates are present and
  \<open>start \<le> now < end\<close>. It fails when \<open>now\<close> is the start itself: the sprint from
  2024-06-03 to 2024-06-14 is not marked at midnight of 2024-06-03.
\<close>

theorem now_equal_start_is_not_current:
  "nowInHalfOpenRange (day 739039) (iter (Some ''S1'') 739039 739050) \<and>
   sprintsHandler noUUID (day 739039) (Some [iter (Some ''S1'') 739039 739050]) =
     Inr [\<lparr>ID = uuid_Nil, Name = ''S1'', StartDate = day 739039, EndDate = day 739050,
           IsCurrent = False\<rparr>]"
  by (simp add: sprints_eval nowInHalfOpenRange_def startOf_def endOf_def)

text \<open>
  C3, as amended. The sprints of the scan are the iterations that have a name, in input
  order, and such a sprint is marked current exactly when both its dates are present (not
  nil and not the zero time) and \<open>now\<close> lies strictly between them: \<open>start < now < end\<close>,
  both ends excluded.
\<close>

theorem sprint_marked_iff_now_strictly_inside:
  "map IsCurrent (fst (scanIterations uuid_Parse now its 0 ([], - 1))) =
     map (nowInOpenRange now) (named its) \<and>
   map (\<lambda>sprint. Some (Sprint.Name sprint)) (fst (scanIterations uuid_Parse now its 0 ([], - 1))) =
     map TeamSettingsIteration.Name (named its)"
proof -
  have "Some (Sprint.Name (buildSprint uuid_Parse now iteration
            (the (TeamSettingsIteration.Name iteration)))) = TeamSettingsIteration.Name iteration"
    if "iteration \<in> set (named its)" for iteration
    using that by (auto simp: named_def buildSprint_Name)
  then show ?thesis
    by (simp add: scanIterations_fst buildSprint_IsCurrent o_def)
qed




text \<open>
  C5. The claim: the window is the slice from \<open>max 0 (i - 3)\<close> to \<open>min len (i + 4)\<close> of the
  sprints that have a name, \<open>i\<close> being the index of the current sprint in that list, and it
  contains the current sprint. The code slices the list of named sprints with the index
  that the current iteration has in the unfiltered input. With four iterations without a
  name in front, the current sprint \<open>A\<close> is first among the named ones and has input index
  4: the window runs from index 1 and leaves \<open>A\<close> out.
\<close>

theorem window_after_nameless_misses_current:
  "map (\<lambda>sprint. (Sprint.Name sprint, IsCurrent sprint))
     (fst (scanIterations noUUID (day 739040) namelessFirst 0 ([], - 1))) =
     [(''A'', True), (''B'', False), (''C'', False), (''D'', False), (''E'', False)] \<and>
   snd (scanIterations noUUID (day 739040) namelessFirst 0 ([], - 1)) = 4 \<and>
   map_sum id (map (\<lambda>sprint. (Sprint.Name sprint, IsCurrent sprint)))
     (sprintsHandler noUUID (day 739040) (Some namelessFirst)) =
     Inr [(''B'', False), (''C'', False), (''D'', False), (''E'', False)]"
  by (simp add: sprints_eval namelessFirst_def)

text \<open>
  C10. The claim: the slice bounds always lie within the list of named sprints, so the
  slicing never fails. With five iterations without a name in front of the current sprint,
  the only named one, the index is 5, the lower bound 2 and the upper bound 1: the slice
  expression panics.
\<close>

theorem window_slice_out_of_range:
  "sprintsHandler noUUID (day 739040)
     (Some [iter None 738980 738990, iter None 738990 739000, iter None 739000 739010,
            iter None 739010 739020, iter None 739020 739030,
            iter (Some ''A'') 739030 739050]) =
   Inl (SliceBoundsOutOfRange 2 1)"
  by (simp add: sprints_eval)

section \<open>Claims on the developer capacity\<close>


section \<open>Lemmas on the date parser\<close>

lemmas parse_eval =
  time_Parse_def parseLoop.simps parseStd_def parseZone_def stdAt_def hasPrefix_def std0x_def
  caseJ_def caseM_def case0_def case1_def case2_def caseUnderscore_def caseMinus_def caseZ_def
  caseFraction_def initialState_def digit_def digitVal_def isDigit_def atoi_def
  commaOrPeriod_def parseNanoseconds_def isFracSecond_def cutspace_def Date_def daysIn_def
  daysBefore_def isLeap_def Let_def Second_def UTC_def longMonthNames_def lower_def skip.simps

lemma tryLayouts_firstMatch:
  "(case tryLayouts parse ls dateStr of Some t \<Rightarrow> Inr t | None \<Rightarrow> k) =
   (case firstMatch parse ls dateStr of
      Some layout \<Rightarrow> Inr (projr (parse layout dateStr))
    | None \<Rightarrow> k)"
  by (induction ls) (auto simp: firstMatch_def split: sum.splits)

lemma firstMatch_append:
  "firstMatch parse (xs @ ys) dateStr =
     (case firstMatch parse xs dateStr of
        Some layout \<Rightarrow> Some layout
      | None \<Rightarrow> firstMatch parse ys dateStr)"
  by (induction xs) (auto simp: firstMatch_def)

lemma firstMatch_None:
  "(firstMatch parse ls dateStr = None) = (\<forall>layout \<in> set ls. isl (parse layout dateStr))"
  by (auto simp: firstMatch_def find_None_iff)

lemma firstMatch_single:
  "firstMatch parse [layout] dateStr = (if isl (parse layout dateStr) then None else Some layout)"
  by (simp add: firstMatch_def)

lemma parseDate_firstMatch:
  "parseDate parse dateStr =
     (case firstMatch parse supportedLayouts dateStr of
        Some layout \<Rightarrow> Inr (projr (parse layout dateStr))
      | None \<Rightarrow> Inl (UnrecognizedDateFormat dateStr))"
proof -
  have "parseDate parse dateStr =
      (case firstMatch parse layouts dateStr of
         Some layout \<Rightarrow> Inr (projr (parse layout dateStr))
       | None \<Rightarrow>
           (case parse RFC3339 dateStr of
              Inr t \<Rightarrow> Inr t
            | Inl err \<Rightarrow> Inl (UnrecognizedDateFormat dateStr)))"
    unfolding parseDate_def by (rule tryLayouts_firstMatch)
  also have "\<dots> = (case firstMatch parse supportedLayouts dateStr of
        Some layout \<Rightarrow> Inr (projr (parse layout dateStr))
      | None \<Rightarrow> Inl (UnrecognizedDateFormat dateStr))"
    by (cases "parse RFC3339 dateStr")
       (simp_all add: supportedLayouts_def firstMatch_append firstMatch_single
          split: option.splits)
  finally show ?thesis .
qed

text \<open>The loop of the parse is the run over the elements of the layout.\<close>

lemma parseLoop_tokens:
  "parseLoop layout val st =
     (case tokens layout of
        (chunks, final) \<Rightarrow>
          (case parseChunks chunks val st of
             Inl e \<Rightarrow> Inl e
           | Inr (st, val) \<Rightarrow> parseEnd final val st))"
proof (induction layout val st rule: parseLoop.induct)
  case (1 layout val st)
  obtain prefix std suffix where n: "nextStdChunk layout = (prefix, std, suffix)"
    by (cases "nextStdChunk layout") auto
  show ?case
  proof (cases std)
    case None
    with n show ?thesis
      by (subst parseLoop.simps, subst tokens.simps) (simp add: parseEnd_def split: option.splits)
  next
    case (Some std')
    obtain chunks final where t: "tokens suffix = (chunks, final)"
      by (cases "tokens suffix") auto
    show ?thesis
    proof (cases "skip val prefix")
      case None
      with n Some t show ?thesis
        by (subst parseLoop.simps, subst tokens.simps) simp
    next
      case sk: (Some val')
      show ?thesis
      proof (cases "parseStd std' (isFracSecond (fst (snd (nextStdChunk suffix)))) val' st")
        case (Inl e)
        with n Some t sk show ?thesis
          by (subst parseLoop.simps, subst tokens.simps) simp
      next
        case (Inr r)
        obtain st' val'' where r: "r = (st', val'')" by (cases r) auto
        have "parseLoop suffix val'' st' =
            (case tokens suffix of
               (chunks, final) \<Rightarrow>
                 (case parseChunks chunks val'' st' of
                    Inl e \<Rightarrow> Inl e
                  | Inr (st, val) \<Rightarrow> parseEnd final val st))"
          using "1.IH" [OF n [symmetric] refl sk Some Inr [unfolded r] refl] .
        with n Some t sk Inr r show ?thesis
          by (subst parseLoop.simps, subst tokens.simps) simp
      qed
    qed
  qed
qed

lemma parseChunks_append:
  "parseChunks (xs @ ys) val st =
     (case parseChunks xs val st of
        Inl e \<Rightarrow> Inl e
      | Inr (st', val') \<Rightarrow> parseChunks ys val' st')"
  by (induction xs arbitrary: val st) (auto split: option.splits sum.splits)

lemmas tokens_eval =
  tokens.simps stdAt_def hasPrefix_def std0x_def caseJ_def caseM_def case0_def case1_def
  case2_def caseUnderscore_def caseMinus_def caseZ_def caseFraction_def isFracSecond_def
  isDigit_def digit_def

lemma tokens_layouts:
  "tokens ''2006-01-02T15:04:05Z'' = (dateTime, ''Z'')"
  "tokens ''2006-01-02T15:04:05'' = (dateTime, [])"
  "tokens ''2006-01-02T15:04:05-07:00'' = (dateTime @ [([], stdNumColonTZ, False)], [])"
  "tokens ''2006-01-02'' =
     ([([], stdLongYear, False), (''-'', stdZeroMonth, False), (''-'', stdZeroDay, False)], [])"
  "tokens ''02/01/2006 15:04'' =
     ([([], stdZeroDay, False), (''/'', stdZeroMonth, False), (''/'', stdLongYear, False),
       ('' '', stdHour, False), ('':'', stdZeroMinute, False)], [])"
  "tokens ''02/01/2006'' =
     ([([], stdZeroDay, False), (''/'', stdZeroMonth, False), (''/'', stdLongYear, False)], [])"
  "tokens ''1/2/2006'' =
     ([([], stdNumMonth, False), (''/'', stdDay, False), (''/'', stdLongYear, False)], [])"
  "tokens ''January 2, 2006'' =
     ([([], stdLongMonth, False), ('' '', stdDay, False), ('', '', stdLongYear, False)], [])"
  "tokens ''2006/01/02'' =
     ([([], stdLongYear, False), (''/'', stdZeroMonth, False), (''/'', stdZeroDay, False)], [])"
  "tokens ''2006-01-02T15:04:05Z07:00'' = (dateTime @ [([], stdISO8601ColonTZ, False)], [])"
  by (simp_all add: tokens_eval dateTime_def)

lemma of_char_48: "((of_char c :: nat) = n) \<Longrightarrow> (of_char d :: nat) = n \<Longrightarrow> c = d"
  by (intro of_char_eqI [where ?'a = nat]) simp

lemma digit_cases:
  assumes "digit c"
  shows "c \<in> set ''0123456789''"
proof -
  from assms have "48 \<le> (of_char c :: nat)" "(of_char c :: nat) \<le> 57"
    by (simp_all add: digit_def less_eq_char_def)
  then consider "(of_char c :: nat) = 48" | "(of_char c :: nat) = 49" | "(of_char c :: nat) = 50"
    | "(of_char c :: nat) = 51" | "(of_char c :: nat) = 52" | "(of_char c :: nat) = 53"
    | "(of_char c :: nat) = 54" | "(of_char c :: nat) = 55" | "(of_char c :: nat) = 56"
    | "(of_char c :: nat) = 57"
    by atomize_elim arith
  then show ?thesis
  proof cases
    case 1 then have "c = CHR ''0''" by (rule of_char_48) simp
    then show ?thesis by simp
  next
    case 2 then have "c = CHR ''1''" by (rule of_char_48) simp
    then show ?thesis by simp
  next
    case 3 then have "c = CHR ''2''" by (rule of_char_48) simp
    then show ?thesis by simp
  next
    case 4 then have "c = CHR ''3''" by (rule of_char_48) simp
    then show ?thesis by simp
  next
    case 5 then have "c = CHR ''4''" by (rule of_char_48) simp
    then show ?thesis by simp
  next
    case 6 then have "c = CHR ''5''" by (rule of_char_48) simp
    then show ?thesis by simp
  next
    case 7 then have "c = CHR ''6''" by (rule of_char_48) simp
    then show ?thesis by simp
  next
    case 8 then have "c = CHR ''7''" by (rule of_char_48) simp
    then show ?thesis by simp
  next
    case 9 then have "c = CHR ''8''" by (rule of_char_48) simp
    then show ?thesis by simp
  next
    case 10 then have "c = CHR ''9''" by (rule of_char_48) simp
    then show ?thesis by simp
  qed
qed

lemma digit_iff: "digit c = (c \<in> set ''0123456789'')"
  using digit_cases [of c] by (auto simp: digit_def)


lemma not_digit_simps [simp]:
  "\<not> digit (CHR ''/'')" "\<not> digit (CHR ''-'')" "\<not> digit (CHR ''+'')" "\<not> digit (CHR ''T'')"
  "\<not> digit (CHR '' '')" "\<not> digit (CHR '':'')" "\<not> digit (CHR ''Z'')" "\<not> digit (CHR '','')"
  "\<not> digit (CHR ''.'')"
  by (simp_all add: digit_def)

lemma digit_lower: "digit c \<Longrightarrow> lower c = c"
  by (auto simp: lower_def dest!: digit_cases)

lemma skip_Nil [simp]: "skip val [] = Some val"
  by simp

lemma skip_char:
  "c \<noteq> CHR '' '' \<Longrightarrow> (skip val [c] = Some v) = (val = c # v)"
  by (cases val) auto

lemma length_cutspace: "length (cutspace val) \<le> length val"
  by (simp add: cutspace_def length_dropWhile_le)

lemma skip_space:
  "skip val '' '' = Some v \<Longrightarrow> v = cutspace val"
  by (auto simp: cutspace_def split: if_splits)

declare skip.simps(2) [simp del]

lemma getnum_fixed:
  "getnum v True = Some (n, v') \<Longrightarrow> \<exists>a b. v = a # b # v' \<and> digit a \<and> digit b"
  by (cases v rule: remdups_adj.cases) (auto split: if_splits)

lemma getnum_var:
  "getnum v False = Some (n, v') \<Longrightarrow>
     (\<exists>a. v = a # v' \<and> digit a \<and> (v' = [] \<or> \<not> digit (hd v'))) \<or>
     (\<exists>a b. v = a # b # v' \<and> digit a \<and> digit b)"
  by (cases v rule: remdups_adj.cases) (auto split: if_splits)

lemma leadingInt_all_digits:
  "leadingInt str x = (q, []) \<Longrightarrow> \<forall>c \<in> set str. digit c"
  by (induction str arbitrary: x) (auto split: if_splits)

lemma atoi_digits:
  assumes "atoi str = Some y" "str \<noteq> []" "digit (hd str)"
  shows "\<forall>c \<in> set str. digit c"
proof -
  from assms(3) have "hd str \<noteq> CHR ''-''" "hd str \<noteq> CHR ''+''"
    by auto
  with assms(1) obtain q where "leadingInt str 0 = (q, [])"
    by (auto simp: atoi_def Let_def split: prod.splits if_splits)
  then show ?thesis
    by (rule leadingInt_all_digits)
qed

lemma parseStd_LongYear:
  assumes "parseStd stdLongYear f v st = Inr (st', v')"
  shows "\<exists>a b c d. v = a # b # c # d # v' \<and> digit a \<and> digit b \<and> digit c \<and> digit d"
proof -
  from assms have len: "4 \<le> length v" and d0: "isDigit v 0" and v': "v' = drop 4 v"
    and "\<exists>y. atoi (take 4 v) = Some y"
    by (auto simp: parseStd_def split: if_splits option.splits)
  then obtain y where y: "atoi (take 4 v) = Some y"
    by blast
  from len obtain a v1 where "v = a # v1" "3 \<le> length v1"
    by (cases v) auto
  moreover then obtain b v2 where "v1 = b # v2" "2 \<le> length v2"
    by (cases v1) auto
  moreover then obtain c v3 where "v2 = c # v3" "1 \<le> length v3"
    by (cases v2) auto
  moreover then obtain d w where "v3 = d # w"
    by (cases v3) auto
  ultimately have v: "v = a # b # c # d # w"
    by simp
  with d0 have "digit a"
    by (simp add: isDigit_def)
  with y v have "\<forall>c \<in> set [a, b, c, d]. digit c"
    using atoi_digits [of "take 4 v" y] by simp
  with v v' show ?thesis
    by simp
qed

lemma parseStd_two_digits:
  assumes "parseStd std f v st = Inr (st', v')"
    and "std = stdZeroMonth \<or> std = stdZeroDay \<or> std = stdZeroMinute"
  shows "\<exists>a b. v = a # b # v' \<and> digit a \<and> digit b"
  using assms
  by (auto simp: parseStd_def split: option.splits if_splits dest!: getnum_fixed)

lemma parseStd_one_or_two_digits:
  assumes "parseStd std f v st = Inr (st', v')"
    and "std = stdNumMonth \<or> std = stdDay \<or> std = stdHour"
  shows "(\<exists>a. v = a # v' \<and> digit a \<and> (v' = [] \<or> \<not> digit (hd v'))) \<or>
         (\<exists>a b. v = a # b # v' \<and> digit a \<and> digit b)"
  using assms
  by (auto simp: parseStd_def split: option.splits if_splits dest!: getnum_var)

lemma parseChunks_Cons_Inr:
  "(parseChunks ((p, std, f) # cs) val st = Inr r) =
     (\<exists>v1 st1 v2. skip val p = Some v1 \<and> parseStd std f v1 st = Inr (st1, v2) \<and>
        parseChunks cs v2 st1 = Inr r)"
  by (auto split: option.splits sum.splits)

lemma parseEnd_Nil: "parseEnd [] v st = Inr st' \<Longrightarrow> v = []"
  by (auto simp: parseEnd_def split: if_splits)

lemma parseEnd_Z: "parseEnd ''Z'' v st = Inr st' \<Longrightarrow> v = ''Z''"
  by (auto simp: parseEnd_def skip_char split: if_splits option.splits)

declare parseChunks.simps(2) [simp del]

lemma parseZone_length:
  "parseZone False v st = Inr (st', v') \<Longrightarrow> length v = 6 + length v'"
  by (auto simp: parseZone_def Let_def split: if_splits option.splits)

lemma match_hd:
  "match (c1 # s1) (c2 # s2) \<Longrightarrow> c1 = c2 \<or> (lower c1 = lower c2 \<and> CHR ''a'' \<le> lower c1)"
  by (cases "c1 = c2";
      cases "lower c1 \<noteq> lower c2 \<or> lower c1 < CHR ''a'' \<or> lower c1 > CHR ''z''")
     (auto simp: not_less)

lemma lookup_found:
  "lookup tab val i = Some (j, v') \<Longrightarrow>
     \<exists>name \<in> set tab. length name \<le> length val \<and> match (take (length name) val) name"
  by (induction tab arbitrary: i) (auto split: if_splits)

lemma parseStd_LongMonth:
  assumes "parseStd stdLongMonth f v st = Inr (st', v')"
  shows "v \<noteq> [] \<and> \<not> digit (hd v)"
proof -
  from assms obtain j where "lookup longMonthNames v 0 = Some (j, v')"
    by (auto simp: parseStd_def split: option.splits)
  then obtain name where name: "name \<in> set longMonthNames" "length name \<le> length v"
    "match (take (length name) v) name"
    by (blast dest: lookup_found)
  from name(1) obtain c2 s2 where n2: "name = c2 # s2"
    and c2: "c2 \<in> set ''JFMASOND''"
    by (auto simp: longMonthNames_def)
  with name(2) obtain c1 s1 where v: "v = c1 # s1"
    by (cases v) auto
  from name(3) n2 v have "match (c1 # take (length s2) s1) (c2 # s2)"
    by (simp del: match.simps)
  then have m: "c1 = c2 \<or> (lower c1 = lower c2 \<and> CHR ''a'' \<le> lower c1)"
    by (rule match_hd)
  have "\<not> digit c1"
  proof
    assume d: "digit c1"
    then have l: "lower c1 = c1"
      by (rule digit_lower)
    from m show False
    proof
      assume "c1 = c2"
      with d c2 show False
        by (auto simp: digit_def)
    next
      assume "lower c1 = lower c2 \<and> CHR ''a'' \<le> lower c1"
      then have "CHR ''a'' \<le> lower c1"
        by (rule conjunct2)
      then have "CHR ''a'' \<le> c1"
        by (simp only: l)
      moreover from d have "c1 \<le> CHR ''9''"
        by (simp add: digit_def)
      ultimately have "CHR ''a'' \<le> CHR ''9''"
        by (rule order_trans)
      then show False
        by simp
    qed
  qed
  with v show ?thesis
    by simp
qed

lemma accepted_tokens:
  assumes "\<not> isl (time_Parse local layout s)" and "tokens layout = (chunks, final)"
  shows "\<exists>st rest st'. parseChunks chunks s initialState = Inr (st, rest) \<and>
           parseEnd final rest st = Inr st'"
proof -
  from assms(1) obtain st' where "parseLoop layout s initialState = Inr st'"
    by (auto simp: time_Parse_def split: sum.splits)
  with assms(2) show ?thesis
    by (auto simp: parseLoop_tokens split: sum.splits)
qed

lemma year_month_day:
  assumes "parseChunks ([([], stdLongYear, False), ([sep], stdZeroMonth, False),
              ([sep], stdZeroDay, False)] @ cs) s st = Inr r"
    and "sep \<noteq> CHR '' ''"
  shows "\<exists>a b c d e f g h w st'. s = a # b # c # d # sep # e # f # sep # g # h # w \<and>
           digit a \<and> digit b \<and> digit c \<and> digit d \<and> parseChunks cs w st' = Inr r"
  using assms
  by (auto simp: parseChunks_Cons_Inr skip_char
      dest!: parseStd_LongYear parseStd_two_digits)

lemma day_month_year:
  assumes "parseChunks ([([], stdZeroDay, False), (''/'', stdZeroMonth, False),
              (''/'', stdLongYear, False)] @ cs) s st = Inr r"
  shows "\<exists>a b c d e f g h w st'. s = a # b # CHR ''/'' # c # d # CHR ''/'' # e # f # g # h # w \<and>
           digit a \<and> digit b \<and> parseChunks cs w st' = Inr r"
  using assms
  by (auto simp: parseChunks_Cons_Inr skip_char
      dest!: parseStd_LongYear parseStd_two_digits)

lemma kind_year_slash:
  assumes "\<not> isl (time_Parse local ''2006/01/02'' s)"
  shows "kind s = 9"
proof -
  from accepted_tokens [OF assms tokens_layouts(9)]
  obtain st rest st' where
    p: "parseChunks ([([], stdLongYear, False), (''/'', stdZeroMonth, False),
          (''/'', stdZeroDay, False)] @ []) s initialState = Inr (st, rest)"
    by auto
  from year_month_day [OF p] show ?thesis
    by (auto simp: kind_def leadingDigits_def sepAt_def)
qed

lemma kind_year_dash:
  assumes "\<not> isl (time_Parse local ''2006-01-02'' s)"
  shows "kind s = 4"
proof -
  from accepted_tokens [OF assms tokens_layouts(4)]
  obtain st rest st' where
    p: "parseChunks ([([], stdLongYear, False), (''-'', stdZeroMonth, False),
          (''-'', stdZeroDay, False)] @ []) s initialState = Inr (st, rest)"
    and e: "parseEnd [] rest st = Inr st'"
    by auto
  from e have "rest = []"
    by (rule parseEnd_Nil)
  with year_month_day [OF p] show ?thesis
    by (auto simp: kind_def leadingDigits_def sepAt_def)
qed

lemma dateTime_shape:
  assumes "parseChunks dateTime s st = Inr r"
  shows "leadingDigits s = 4 \<and> sepAt s 4 (CHR ''-'') \<and> 10 < length s"
proof -
  from assms have "parseChunks ([([], stdLongYear, False), (''-'', stdZeroMonth, False),
      (''-'', stdZeroDay, False)] @
      [(''T'', stdHour, False), ('':'', stdZeroMinute, False), ('':'', stdZeroSecond, False)])
      s st = Inr r"
    by (simp add: dateTime_def)
  from year_month_day [OF this] show ?thesis
    by (auto simp: leadingDigits_def sepAt_def parseChunks_Cons_Inr skip_char)
qed

lemma kind_dateTime:
  assumes "parseChunks dateTime s initialState = Inr (st, rest)"
  shows "kind s = (if rest = [] then 2 else if rest = ''Z'' then 1 else 3)"
  using dateTime_shape [OF assms] assms by (simp add: kind_def)

lemma kind_Z:
  assumes "\<not> isl (time_Parse local ''2006-01-02T15:04:05Z'' s)"
  shows "kind s = 1"
proof -
  from accepted_tokens [OF assms tokens_layouts(1)]
  obtain st rest st' where p: "parseChunks dateTime s initialState = Inr (st, rest)"
    and e: "parseEnd ''Z'' rest st = Inr st'"
    by auto
  from e have "rest = ''Z''"
    by (rule parseEnd_Z)
  with kind_dateTime [OF p] show ?thesis
    by simp
qed

lemma kind_no_zone:
  assumes "\<not> isl (time_Parse local ''2006-01-02T15:04:05'' s)"
  shows "kind s = 2"
proof -
  from accepted_tokens [OF assms tokens_layouts(2)]
  obtain st rest st' where p: "parseChunks dateTime s initialState = Inr (st, rest)"
    and e: "parseEnd [] rest st = Inr st'"
    by auto
  from e have "rest = []"
    by (rule parseEnd_Nil)
  with kind_dateTime [OF p] show ?thesis
    by simp
qed

lemma kind_offset:
  assumes "\<not> isl (time_Parse local ''2006-01-02T15:04:05-07:00'' s)"
  shows "kind s = 3"
proof -
  from accepted_tokens [OF assms tokens_layouts(3)]
  obtain st rest st' where
    p: "parseChunks (dateTime @ [([], stdNumColonTZ, False)]) s initialState = Inr (st, rest)"
    by auto
  then obtain st1 rest1 where p1: "parseChunks dateTime s initialState = Inr (st1, rest1)"
    and z: "parseChunks [([], stdNumColonTZ, False)] rest1 st1 = Inr (st, rest)"
    by (auto simp: parseChunks_append split: sum.splits)
  from z have "parseZone False rest1 st1 = Inr (st, rest)"
    by (auto simp: parseChunks_Cons_Inr parseStd_def)
  then have "length rest1 = 6 + length rest"
    by (rule parseZone_length)
  then have "rest1 \<noteq> [] \<and> rest1 \<noteq> ''Z''"
    by auto
  with kind_dateTime [OF p1] show ?thesis
    by simp
qed

lemma kind_day_month:
  assumes "\<not> isl (time_Parse local ''02/01/2006'' s)"
  shows "kind s = 6"
proof -
  from accepted_tokens [OF assms tokens_layouts(6)]
  obtain st rest st' where
    p: "parseChunks ([([], stdZeroDay, False), (''/'', stdZeroMonth, False),
          (''/'', stdLongYear, False)] @ []) s initialState = Inr (st, rest)"
    and e: "parseEnd [] rest st = Inr st'"
    by auto
  from e have "rest = []"
    by (rule parseEnd_Nil)
  with day_month_year [OF p] show ?thesis
    by (auto simp: kind_def leadingDigits_def sepAt_def)
qed

lemma kind_day_month_time:
  assumes "\<not> isl (time_Parse local ''02/01/2006 15:04'' s)"
  shows "kind s = 5"
proof -
  from accepted_tokens [OF assms tokens_layouts(5)]
  obtain st rest st' where
    p: "parseChunks ([([], stdZeroDay, False), (''/'', stdZeroMonth, False),
          (''/'', stdLongYear, False)] @
          [('' '', stdHour, False), ('':'', stdZeroMinute, False)]) s initialState = Inr (st, rest)"
    by auto
  from day_month_year [OF p] obtain a b c d e f g h w st1 where
    s: "s = a # b # CHR ''/'' # c # d # CHR ''/'' # e # f # g # h # w" "digit a" "digit b"
    and w: "parseChunks [('' '', stdHour, False), ('':'', stdZeroMinute, False)] w st1 = Inr (st, rest)"
    by blast
  from w obtain v1 st2 v2 where "skip w '' '' = Some v1" "parseStd stdHour False v1 st1 = Inr (st2, v2)"
    by (auto simp: parseChunks_Cons_Inr)
  then have "cutspace w \<noteq> []"
    by (auto dest!: skip_space parseStd_one_or_two_digits)
  then have "w \<noteq> []"
    by (auto simp: cutspace_def)
  with s show ?thesis
    by (auto simp: kind_def leadingDigits_def sepAt_def)
qed

lemma kind_month_name:
  assumes "\<not> isl (time_Parse local ''January 2, 2006'' s)"
  shows "kind s = 8"
proof -
  from accepted_tokens [OF assms tokens_layouts(8)]
  obtain st rest where
    p: "parseChunks [([], stdLongMonth, False), ('' '', stdDay, False),
          ('', '', stdLongYear, False)] s initialState = Inr (st, rest)"
    by auto
  then obtain st1 v2 where "parseStd stdLongMonth False s initialState = Inr (st1, v2)"
    by (auto simp: parseChunks_Cons_Inr)
  then have "s \<noteq> [] \<and> \<not> digit (hd s)"
    by (rule parseStd_LongMonth)
  then have "leadingDigits s = 0"
    by (cases s) (auto simp: leadingDigits_def)
  then show ?thesis
    by (simp add: kind_def)
qed

lemma kind_month_day:
  assumes "\<not> isl (time_Parse local ''1/2/2006'' s)"
  shows "kind s = 6 \<or> kind s = 7"
proof -
  from accepted_tokens [OF assms tokens_layouts(7)]
  obtain st rest st' where
    p: "parseChunks [([], stdNumMonth, False), (''/'', stdDay, False),
          (''/'', stdLongYear, False)] s initialState = Inr (st, rest)"
    and e: "parseEnd [] rest st = Inr st'"
    by auto
  from e have r: "rest = []"
    by (rule parseEnd_Nil)
  from p obtain st1 v1 st2 v2 st3 where
    m: "parseStd stdNumMonth False s initialState = Inr (st1, CHR ''/'' # v1)"
    and d: "parseStd stdDay False v1 st1 = Inr (st2, CHR ''/'' # v2)"
    and y: "parseStd stdLongYear False v2 st2 = Inr (st3, rest)"
    by (auto simp: parseChunks_Cons_Inr skip_char)
  from y r have lv2: "length v2 = 4"
    by (auto dest!: parseStd_LongYear)
  from d have lv1: "length v1 \<le> 3 + length v2"
    by (auto dest!: parseStd_one_or_two_digits)
  from m have "(leadingDigits s = 1 \<or> leadingDigits s = 2) \<and> length s \<le> 3 + length v1"
    by (auto simp: leadingDigits_def dest!: parseStd_one_or_two_digits)
  with lv1 lv2 show ?thesis
    by (auto simp: kind_def)
qed

lemma set9E:
  assumes "x \<in> set [a1, a2, a3, a4, a5, a6, a7, a8, a9]"
  obtains "x = a1" | "x = a2" | "x = a3" | "x = a4" | "x = a5" | "x = a6" | "x = a7"
    | "x = a8" | "x = a9"
  using assms by auto

lemma kind_of_layout:
  assumes "layout \<in> set layouts" and "\<not> isl (time_Parse local layout s)"
  shows "(layout = ''2006-01-02T15:04:05Z'' \<and> kind s = 1) \<or>
         (layout = ''2006-01-02T15:04:05'' \<and> kind s = 2) \<or>
         (layout = ''2006-01-02T15:04:05-07:00'' \<and> kind s = 3) \<or>
         (layout = ''2006-01-02'' \<and> kind s = 4) \<or>
         (layout = ''02/01/2006 15:04'' \<and> kind s = 5) \<or>
         (layout = ''02/01/2006'' \<and> kind s = 6) \<or>
         (layout = ''1/2/2006'' \<and> (kind s = 6 \<or> kind s = 7)) \<or>
         (layout = ''January 2, 2006'' \<and> kind s = 8) \<or>
         (layout = ''2006/01/02'' \<and> kind s = 9)"
  using assms(1) [unfolded layouts_def]
proof (cases rule: set9E)
  case 1 with assms(2) show ?thesis using kind_Z [of local s] by simp
next
  case 2 with assms(2) show ?thesis using kind_no_zone [of local s] by simp
next
  case 3 with assms(2) show ?thesis using kind_offset [of local s] by simp
next
  case 4 with assms(2) show ?thesis using kind_year_dash [of local s] by simp
next
  case 5 with assms(2) show ?thesis using kind_day_month_time [of local s] by simp
next
  case 6 with assms(2) show ?thesis using kind_day_month [of local s] by simp
next
  case 7 with assms(2) show ?thesis using kind_month_day [of local s] by simp
next
  case 8 with assms(2) show ?thesis using kind_month_name [of local s] by simp
next
  case 9 with assms(2) show ?thesis using kind_year_slash [of local s] by simp
qed

lemma two_layouts_accept:
  assumes "l1 \<in> set layouts" "l2 \<in> set layouts" "l1 \<noteq> l2"
    and "\<not> isl (time_Parse local l1 s)" "\<not> isl (time_Parse local l2 s)"
  shows "{l1, l2} = {''02/01/2006'', ''1/2/2006''}"
  using kind_of_layout [OF assms(1,4)] kind_of_layout [OF assms(2,5)] assms(3)
  by (elim disjE conjE) (simp_all, auto)

lemma day_month_first:
  assumes "\<not> isl (time_Parse local ''02/01/2006'' s)"
  shows "parseDate (time_Parse local) s = Inr (projr (time_Parse local ''02/01/2006'' s))"
proof -
  have k: "kind s = 6"
    using assms by (rule kind_day_month)
  have "isl (time_Parse local layout s)"
    if "layout \<in> set (take 5 layouts)" for layout
  proof (rule ccontr)
    assume a: "\<not> isl (time_Parse local layout s)"
    from that have "layout \<in> set layouts"
      by (rule in_set_takeD)
    from kind_of_layout [OF this a] that k show False
      by (auto simp: layouts_def)
  qed
  then have "firstMatch (time_Parse local) supportedLayouts s = Some ''02/01/2006''"
    using assms by (simp add: firstMatch_def supportedLayouts_def layouts_def)
  then show ?thesis
    by (simp add: parseDate_firstMatch)
qed
text \<open>
  What \<^verbatim>\<open>time.RFC3339\<close> parses, one of the two layouts with a zone parses as well: the
  last attempt of \<^verbatim>\<open>parseDate\<close> never succeeds after the nine layouts have failed.
\<close>

lemma parseZone_iso:
  assumes "parseZone True v st = Inr (st', v')"
  shows "(v = CHR ''Z'' # v' \<and> st' = st\<lparr>st_z := Some UTC\<rparr>) \<or>
         parseZone False v st = Inr (st', v')"
proof (cases "1 \<le> length v \<and> v ! 0 = CHR ''Z''")
  case True
  then obtain w where "v = CHR ''Z'' # w"
    by (cases v) auto
  with assms show ?thesis
    by (simp add: parseZone_def)
next
  case False
  have "parseZone True v st = parseZone False v st"
    by (simp only: parseZone_def False simp_thms if_False)
  with assms show ?thesis
    by simp
qed

lemma accepted_iff:
  "(\<not> isl (time_Parse local layout s)) =
     (\<exists>st. parseLoop layout s initialState = Inr st \<and>
        \<not> ((if st_day st < 0 then 1 else st_day st) < 1 \<or>
           (if st_day st < 0 then 1 else st_day st) >
             daysIn (if st_month st < 0 then 1 else st_month st) (st_year st)))"
  by (auto simp: time_Parse_def Let_def split: sum.splits option.splits)

lemma parseLoop_chunks:
  assumes "tokens layout = (chunks, final)"
  shows "(parseLoop layout s st0 = Inr st) =
     (\<exists>st1 rest. parseChunks chunks s st0 = Inr (st1, rest) \<and> parseEnd final rest st1 = Inr st)"
  using assms by (auto simp: parseLoop_tokens split: sum.splits)

lemma parseEnd_Inr: "parseEnd final rest st1 = Inr st \<Longrightarrow> st = st1"
  by (auto simp: parseEnd_def split: option.splits if_splits)

lemma rfc3339_covered:
  assumes "\<not> isl (time_Parse local RFC3339 s)"
  shows "\<not> isl (time_Parse local ''2006-01-02T15:04:05Z'' s) \<or>
         \<not> isl (time_Parse local ''2006-01-02T15:04:05-07:00'' s)"
proof -
  let ?ok = "\<lambda>st. \<not> ((if st_day st < 0 then 1 else st_day st) < 1 \<or>
           (if st_day st < 0 then 1 else st_day st) >
             daysIn (if st_month st < 0 then 1 else st_month st) (st_year st))"
  from assms obtain st where pl: "parseLoop RFC3339 s initialState = Inr st" and ok: "?ok st"
    unfolding accepted_iff by blast
  from pl obtain st2 rest where
    pc: "parseChunks (dateTime @ [([], stdISO8601ColonTZ, False)]) s initialState = Inr (st2, rest)"
    and pe: "parseEnd [] rest st2 = Inr st"
    unfolding RFC3339_def parseLoop_chunks [OF tokens_layouts(10)] by blast
  from pe have rest: "rest = []" and st2: "st2 = st"
    by (auto dest: parseEnd_Nil parseEnd_Inr)
  from pc obtain st1 rest1 where p1: "parseChunks dateTime s initialState = Inr (st1, rest1)"
    and z: "parseChunks [([], stdISO8601ColonTZ, False)] rest1 st1 = Inr (st2, rest)"
    by (auto simp: parseChunks_append split: sum.splits)
  from z have "parseZone True rest1 st1 = Inr (st, [])"
    by (auto simp: parseChunks_Cons_Inr parseStd_def rest st2)
  then consider (utc) "rest1 = ''Z''" "st = st1\<lparr>st_z := Some UTC\<rparr>"
    | (offset) "parseZone False rest1 st1 = Inr (st, [])"
    by (auto dest: parseZone_iso)
  then show ?thesis
  proof cases
    case utc
    from p1 utc(1) have "parseLoop ''2006-01-02T15:04:05Z'' s initialState = Inr st1"
      unfolding parseLoop_chunks [OF tokens_layouts(1)]
      by (auto simp: parseEnd_def skip.simps)
    moreover from ok have "?ok st1"
      unfolding utc(2) by (simp split: if_splits)
    ultimately show ?thesis
      unfolding accepted_iff by blast
  next
    case offset
    then have "parseChunks [([], stdNumColonTZ, False)] rest1 st1 = Inr (st, [])"
      by (simp add: parseChunks_Cons_Inr parseStd_def)
    with p1 have "parseChunks (dateTime @ [([], stdNumColonTZ, False)]) s initialState = Inr (st, [])"
      by (simp add: parseChunks_append)
    then have "parseLoop ''2006-01-02T15:04:05-07:00'' s initialState = Inr st"
      unfolding parseLoop_chunks [OF tokens_layouts(3)]
      by (auto simp: parseEnd_def)
    with ok show ?thesis
      unfolding accepted_iff by blast
  qed
qed

lemma parseDate_nine_layouts:
  "parseDate (time_Parse local) s =
     (case firstMatch (time_Parse local) layouts s of
        Some layout \<Rightarrow> Inr (projr (time_Parse local layout s))
      | None \<Rightarrow> Inl (UnrecognizedDateFormat s))"
proof (cases "firstMatch (time_Parse local) layouts s")
  case None
  then have all: "\<forall>layout \<in> set layouts. isl (time_Parse local layout s)"
    by (simp add: firstMatch_None)
  have "isl (time_Parse local RFC3339 s)"
  proof (rule ccontr)
    assume "\<not> isl (time_Parse local RFC3339 s)"
    from rfc3339_covered [OF this] all show False
      by (auto simp: layouts_def)
  qed
  with None show ?thesis
    by (simp add: parseDate_firstMatch supportedLayouts_def firstMatch_append firstMatch_single)
next
  case (Some layout)
  then show ?thesis
    by (simp add: parseDate_firstMatch supportedLayouts_def firstMatch_append)
qed

section \<open>Claims on the date parser\<close>

text \<open>
  C7. For every string, \<^verbatim>\<open>parseDate\<close> attempts the fixed ordered list of supported
  patterns and returns the timestamp of the first pattern that parses the string; for a
  string that none of them parses it returns no timestamp and fails with the error for an
  unrecognised date format. Whatever \<^verbatim>\<open>time.Parse\<close> accepts, this holds for the
  patterns that the function attempts, the nine layouts of its list followed by
  \<^verbatim>\<open>time.RFC3339\<close>; with \<^verbatim>\<open>time.Parse\<close> as modelled it holds for the nine layouts of
  the list alone.
\<close>

theorem parseDate_first_supported_layout:
  "parseDate parse dateStr =
     (case firstMatch parse supportedLayouts dateStr of
        Some layout \<Rightarrow> Inr (projr (parse layout dateStr))
      | None \<Rightarrow> Inl (UnrecognizedDateFormat dateStr)) \<and>
   ((\<forall>layout \<in> set supportedLayouts. isl (parse layout dateStr)) \<longrightarrow>
      parseDate parse dateStr = Inl (UnrecognizedDateFormat dateStr)) \<and>
   parseDate (time_Parse local) dateStr =
     (case firstMatch (time_Parse local) layouts dateStr of
        Some layout \<Rightarrow> Inr (projr (time_Parse local layout dateStr))
      | None \<Rightarrow> Inl (UnrecognizedDateFormat dateStr)) \<and>
   ((\<forall>layout \<in> set layouts. isl (time_Parse local layout dateStr)) \<longrightarrow>
      parseDate (time_Parse local) dateStr = Inl (UnrecognizedDateFormat dateStr))"
proof -
  have ten: "parseDate parse dateStr = Inl (UnrecognizedDateFormat dateStr)"
    if "\<forall>layout \<in> set supportedLayouts. isl (parse layout dateStr)"
  proof -
    from that have "firstMatch parse supportedLayouts dateStr = None"
      by (simp add: firstMatch_None)
    then show ?thesis
      by (simp add: parseDate_firstMatch)
  qed
  have nine: "parseDate (time_Parse local) dateStr = Inl (UnrecognizedDateFormat dateStr)"
    if "\<forall>layout \<in> set layouts. isl (time_Parse local layout dateStr)"
  proof -
    from that have "firstMatch (time_Parse local) layouts dateStr = None"
      by (simp add: firstMatch_None)
    then show ?thesis
      by (simp add: parseDate_nine_layouts)
  qed
  from ten nine show ?thesis
    using parseDate_firstMatch [of parse dateStr] parseDate_nine_layouts [of local dateStr]
    by blast
qed

theorem parseDate_first_supported_layout_witness:
  "filter (\<lambda>layout. \<not> isl (time_Parse UTC layout ''amanha'')) supportedLayouts = [] \<and>
   parseDate (time_Parse UTC) ''amanha'' = Inl (UnrecognizedDateFormat ''amanha'')"
proof -
  have none: "filter (\<lambda>layout. \<not> isl (time_Parse UTC layout ''amanha'')) supportedLayouts = []"
    by (simp add: supportedLayouts_def layouts_def RFC3339_def parse_eval)
  then have "\<forall>layout \<in> set supportedLayouts. isl (time_Parse UTC layout ''amanha'')"
    by (simp add: filter_empty_conv)
  with parseDate_first_supported_layout [of "time_Parse UTC" "''amanha''" UTC] none
  show ?thesis by blast
qed

text \<open>
  C8. The claim: no two patterns of the list accept the same string, so the result of
  \<^verbatim>\<open>parseDate\<close> does not depend on the order of the list. It fails for \<^verbatim>\<open>11/12/2024\<close>:
  the layout \<^verbatim>\<open>02/01/2006\<close> reads it as 11 December 2024 and the layout \<^verbatim>\<open>1/2/2006\<close>
  as 12 November 2024; trying the list in its order gives the first reading and trying it
  in the reverse order gives the second.
\<close>

theorem two_layouts_read_same_string:
  "''02/01/2006'' \<in> set layouts \<and> ''1/2/2006'' \<in> set layouts \<and>
   time_Parse UTC ''02/01/2006'' ''11/12/2024'' =
     Inr \<lparr>instant = 63869472000000000000, zone = UTC\<rparr> \<and>
   time_Parse UTC ''1/2/2006'' ''11/12/2024'' =
     Inr \<lparr>instant = 63866966400000000000, zone = UTC\<rparr> \<and>
   tryLayouts (time_Parse UTC) layouts ''11/12/2024'' =
     Some \<lparr>instant = 63869472000000000000, zone = UTC\<rparr> \<and>
   tryLayouts (time_Parse UTC) (rev layouts) ''11/12/2024'' =
     Some \<lparr>instant = 63866966400000000000, zone = UTC\<rparr>"
  by (simp add: layouts_def parse_eval)

text \<open>
  C8, as amended. The only two patterns of the list that accept the same string are
  \<^verbatim>\<open>02/01/2006\<close> (day, month, year) and \<^verbatim>\<open>1/2/2006\<close> (month, day, year): any two
  different patterns of the list that both parse a string are these two. For a string
  that \<^verbatim>\<open>02/01/2006\<close> parses, \<^verbatim>\<open>parseDate\<close> returns the reading of that layout, because
  it comes first; the order of the list decides there.
\<close>

theorem only_day_month_layouts_overlap:
  "(l1 \<in> set layouts \<and> l2 \<in> set layouts \<and> l1 \<noteq> l2 \<and>
    \<not> isl (time_Parse local l1 s) \<and> \<not> isl (time_Parse local l2 s) \<longrightarrow>
      {l1, l2} = {''02/01/2006'', ''1/2/2006''}) \<and>
   (\<not> isl (time_Parse local ''02/01/2006'' s) \<longrightarrow>
      parseDate (time_Parse local) s = Inr (projr (time_Parse local ''02/01/2006'' s)))"
  using two_layouts_accept [of l1 l2 local s] day_month_first [of local s] by blast

theorem only_day_month_layouts_overlap_witness:
  "\<not> isl (time_Parse UTC ''02/01/2006'' ''11/12/2024'') \<and>
   \<not> isl (time_Parse UTC ''1/2/2006'' ''11/12/2024'') \<and>
   parseDate (time_Parse UTC) ''11/12/2024'' = Inr \<lparr>instant = 63869472000000000000, zone = UTC\<rparr>"
proof -
  have a: "time_Parse UTC ''02/01/2006'' ''11/12/2024'' =
      Inr \<lparr>instant = 63869472000000000000, zone = UTC\<rparr>"
    by (simp add: parse_eval)
  have b: "\<not> isl (time_Parse UTC ''1/2/2006'' ''11/12/2024'')"
    by (simp add: parse_eval)
  from a have "\<not> isl (time_Parse UTC ''02/01/2006'' ''11/12/2024'')"
    by simp
  with only_day_month_layouts_overlap [of "''02/01/2006''" "''1/2/2006''" UTC "''11/12/2024''"] a b
  show ?thesis
    by simp
qed
end
